theory Spec2Isabelle
  imports Complex_Main "HOL-Library.AList" "HOL-Library.Word"
begin

section \<open>The file system under the two stores\<close>

text \<open>
  Both stores keep flat files in one storage directory each. A directory is the list of
  its entries in listing order (name and regular file), the file system maps the path of
  a directory to its entries. A file carries its bytes and its last-modified time; time
  is a real number of seconds, as \<^verbatim>\<open>time.time()\<close> and \<^verbatim>\<open>st_mtime\<close> are, without the
  rounding of floats. Subdirectories and links inside a storage directory are outside
  the model, and so is a second process: every operation runs from a state to a state,
  and each operation reads the clock at one instant \<open>now\<close>.
\<close>

type_synonym bytes = string

record fnode =
  content :: bytes
  mtime :: real

type_synonym directory = "(string \<times> fnode) list"

type_synonym filesystem = "string \<rightharpoonup> directory"

text \<open>
  The two domain errors of the stores (the spec's \<open>NotFound\<close>), each with its message,
  and the plain \<^verbatim>\<open>FileNotFoundError\<close> of the operating system, which neither store
  catches. \<^verbatim>\<open>DatasetNotFoundError\<close> and \<^verbatim>\<open>ResultNotFoundError\<close> are subclasses of
  \<^verbatim>\<open>FileNotFoundError\<close>, but the routes catch only the subclasses.
\<close>

datatype error =
  DatasetNotFoundError string
  | ResultNotFoundError string
  | FileNotFoundError

fun is_not_found :: "error \<Rightarrow> bool" where
  "is_not_found (DatasetNotFoundError _) = True"
| "is_not_found (ResultNotFoundError _) = True"
| "is_not_found FileNotFoundError = False"

definition lookup_file :: "filesystem \<Rightarrow> string \<Rightarrow> string \<Rightarrow> fnode option" where
  "lookup_file fs dir name = (case fs dir of None \<Rightarrow> None | Some d \<Rightarrow> map_of d name)"

text \<open>\<^verbatim>\<open>Path.exists()\<close> of a file \<open>dir / name\<close>, and of the directory itself.\<close>

definition path_exists :: "filesystem \<Rightarrow> string \<Rightarrow> string \<Rightarrow> bool" where
  "path_exists fs dir name = (lookup_file fs dir name \<noteq> None)"

definition dir_exists :: "filesystem \<Rightarrow> string \<Rightarrow> bool" where
  "dir_exists fs dir = (fs dir \<noteq> None)"

text \<open>\<^verbatim>\<open>Path.mkdir(parents=True, exist_ok=True)\<close>.\<close>

definition mkdir :: "filesystem \<Rightarrow> string \<Rightarrow> filesystem" where
  "mkdir fs dir = (case fs dir of None \<Rightarrow> fs(dir \<mapsto> []) | Some _ \<Rightarrow> fs)"

text \<open>Writing a file at time \<open>now\<close> creates or replaces it; the directory must exist.\<close>

definition write_bytes :: "real \<Rightarrow> filesystem \<Rightarrow> string \<Rightarrow> string \<Rightarrow> bytes \<Rightarrow> error + filesystem" where
  "write_bytes now fs dir name data =
     (case fs dir of
        None \<Rightarrow> Inl FileNotFoundError
      | Some d \<Rightarrow> Inr (fs(dir \<mapsto> AList.update name \<lparr>content = data, mtime = now\<rparr> d)))"

definition read_bytes :: "filesystem \<Rightarrow> string \<Rightarrow> string \<Rightarrow> error + bytes" where
  "read_bytes fs dir name =
     (case lookup_file fs dir name of
        None \<Rightarrow> Inl FileNotFoundError
      | Some f \<Rightarrow> Inr (content f))"

text \<open>\<^verbatim>\<open>Path.stat().st_mtime\<close>: raises when the file is absent.\<close>

definition stat_mtime :: "filesystem \<Rightarrow> string \<Rightarrow> string \<Rightarrow> error + real" where
  "stat_mtime fs dir name =
     (case lookup_file fs dir name of
        None \<Rightarrow> Inl FileNotFoundError
      | Some f \<Rightarrow> Inr (mtime f))"

text \<open>\<^verbatim>\<open>Path.unlink(missing_ok)\<close>: an absent file is an error unless \<open>missing_ok\<close>.\<close>

definition unlink :: "filesystem \<Rightarrow> string \<Rightarrow> string \<Rightarrow> bool \<Rightarrow> error + filesystem" where
  "unlink fs dir name missing_ok =
     (case fs dir of
        None \<Rightarrow> (if missing_ok then Inr fs else Inl FileNotFoundError)
      | Some d \<Rightarrow>
          (if map_of d name = None
           then (if missing_ok then Inr fs else Inl FileNotFoundError)
           else Inr (fs(dir \<mapsto> AList.delete name d))))"

text \<open>
  \<^verbatim>\<open>Path.glob("*" + suffix)\<close>: the names directly under the directory that end with the
  suffix, in listing order. The pattern has no \<^verbatim>\<open>**\<close>, so nothing below a subdirectory
  is listed; \<^verbatim>\<open>*\<close> matches the empty string and names that start with a dot; the
  match is case-sensitive (POSIX).
\<close>

definition ends_with :: "string \<Rightarrow> string \<Rightarrow> bool" where
  "ends_with suf s = (take (length suf) (rev s) = rev suf)"

definition glob_suffix :: "filesystem \<Rightarrow> string \<Rightarrow> string \<Rightarrow> string list" where
  "glob_suffix fs dir suf =
     (case fs dir of None \<Rightarrow> [] | Some d \<Rightarrow> filter (ends_with suf) (map fst d))"

text \<open>
  \<^verbatim>\<open>PurePath.stem\<close>: the name without its last suffix; a name whose only dot is the
  first or the last character has no suffix.
\<close>

definition rfind :: "char \<Rightarrow> string \<Rightarrow> nat option" where
  "rfind c s =
     (if c \<in> set s then Some (length s - 1 - length (takeWhile (\<lambda>x. x \<noteq> c) (rev s)))
      else None)"

definition stem :: "string \<Rightarrow> string" where
  "stem name =
     (case rfind (CHR ''.'') name of
        None \<Rightarrow> name
      | Some i \<Rightarrow> (if 0 < i \<and> i < length name - 1 then take i name else name))"

text \<open>\<^verbatim>\<open>_is_expired\<close>: \<^verbatim>\<open>(time.time() - path.stat().st_mtime) > ttl_seconds\<close>.\<close>

definition is_expired :: "real \<Rightarrow> filesystem \<Rightarrow> string \<Rightarrow> string \<Rightarrow> int \<Rightarrow> error + bool" where
  "is_expired now fs dir name ttl_seconds =
     (case stat_mtime fs dir name of
        Inl e \<Rightarrow> Inl e
      | Inr m \<Rightarrow> Inr (now - m > real_of_int ttl_seconds))"

text \<open>\<^verbatim>\<open>_safe_unlink\<close>: \<^verbatim>\<open>path.unlink(missing_ok=True)\<close>.\<close>

definition safe_unlink :: "filesystem \<Rightarrow> string \<Rightarrow> string \<Rightarrow> error + filesystem" where
  "safe_unlink fs dir name = unlink fs dir name True"

section \<open>Identifiers\<close>

text \<open>
  \<^verbatim>\<open>uuid.uuid4().hex\<close> is \<^verbatim>\<open>'%032x' % self.int\<close>: the 128-bit value in 32 lowercase
  hexadecimal digits, most significant first. The random value is an argument of save.
\<close>

definition hex_digits :: string where
  "hex_digits = ''0123456789abcdef''"

definition uuid_hex :: "128 word \<Rightarrow> string" where
  "uuid_hex w = map (\<lambda>i. hex_digits ! (unat w div 16 ^ i mod 16)) (rev [0..<32])"

text \<open>
  \<^verbatim>\<open>re.compile(r"^[0-9a-f]{32}$").match(s)\<close>. Without \<^verbatim>\<open>re.MULTILINE\<close>, \<^verbatim>\<open>$\<close> matches at
  the end of the string and also just before a newline that ends the string.
\<close>

definition id_pattern_match :: "string \<Rightarrow> bool" where
  "id_pattern_match s =
     (length (take 32 s) = 32 \<and> list_all (\<lambda>c. c \<in> set hex_digits) (take 32 s)
      \<and> (drop 32 s = [] \<or> drop 32 s = [CHR 0x0A]))"

section \<open>Serialisation\<close>

text \<open>
  The values \<^verbatim>\<open>json.loads\<close> returns, with Python's truth value of each and
  \<^verbatim>\<open>dict.get\<close>, which only an object has (on any other value the attribute lookup
  raises).
\<close>

datatype json =
  JNull
  | JBool bool
  | JNum real
  | JStr string
  | JArr "json list"
  | JObj "(string \<times> json) list"

fun truthy :: "json \<Rightarrow> bool" where
  "truthy JNull = False"
| "truthy (JBool b) = b"
| "truthy (JNum r) = (r \<noteq> 0)"
| "truthy (JStr s) = (s \<noteq> [])"
| "truthy (JArr xs) = (xs \<noteq> [])"
| "truthy (JObj kvs) = (kvs \<noteq> [])"

definition dict_get :: "json \<Rightarrow> string \<Rightarrow> json option" where
  "dict_get j k =
     (case j of
        JObj kvs \<Rightarrow> Some (case map_of kvs k of None \<Rightarrow> JNull | Some v \<Rightarrow> v)
      | _ \<Rightarrow> None)"

text \<open>
  The library functions the stores call are parameters: \<^verbatim>\<open>DataFrame.to_pickle\<close> and
  \<^verbatim>\<open>pandas.read_pickle\<close>, \<^verbatim>\<open>DataFrame.to_csv(index=False)\<close>, and \<^verbatim>\<open>json.dumps\<close> and
  \<^verbatim>\<open>json.loads\<close> together with the UTF-8 coding of the text. A reader that raises
  returns \<open>None\<close>.
\<close>

record 'df codecs =
  to_pickle :: "'df \<Rightarrow> bytes"
  read_pickle :: "bytes \<Rightarrow> 'df option"
  to_csv :: "'df \<Rightarrow> bytes"
  json_dumps :: "json \<Rightarrow> bytes"
  json_loads :: "bytes \<Rightarrow> json option"

section \<open>The dataset store\<close>

definition DATASET_FILE_SUFFIX :: string where
  "DATASET_FILE_SUFFIX = ''.pkl''"

definition DATASET_META_SUFFIX :: string where
  "DATASET_META_SUFFIX = ''.json''"

text \<open>\<^verbatim>\<open>_dataset_path\<close> and \<^verbatim>\<open>_meta_path\<close>, as names inside the storage directory.\<close>

definition dataset_path :: "string \<Rightarrow> string" where
  "dataset_path dataset_id = dataset_id @ DATASET_FILE_SUFFIX"

definition meta_path :: "string \<Rightarrow> string" where
  "meta_path dataset_id = dataset_id @ DATASET_META_SUFFIX"

definition resolve_dataset_path :: "string \<Rightarrow> error + string" where
  "resolve_dataset_path dataset_id =
     (if \<not> id_pattern_match dataset_id
      then Inl (DatasetNotFoundError ''Invalid dataset identifier.'')
      else Inr (dataset_path dataset_id))"

definition resolve_meta_path :: "string \<Rightarrow> error + string" where
  "resolve_meta_path dataset_id =
     (if \<not> id_pattern_match dataset_id
      then Inl (DatasetNotFoundError ''Invalid dataset identifier.'')
      else Inr (meta_path dataset_id))"

definition save_dataset ::
  "'df codecs \<Rightarrow> real \<Rightarrow> 128 word \<Rightarrow> filesystem \<Rightarrow> 'df \<Rightarrow> string \<Rightarrow> string
     \<Rightarrow> (error + string) \<times> filesystem" where
  "save_dataset cd now uid fs df source_filename storage_dir =
     (let fs0 = mkdir fs storage_dir;
          dataset_id = uuid_hex uid
      in case write_bytes now fs0 storage_dir (dataset_path dataset_id) (to_pickle cd df) of
           Inl e \<Rightarrow> (Inl e, fs0)
         | Inr fs1 \<Rightarrow>
             (case write_bytes now fs1 storage_dir (meta_path dataset_id)
                     (json_dumps cd (JObj [(''source_filename'',
                        JStr (if source_filename = [] then ''uploaded_file''
                              else source_filename))])) of
                Inl e \<Rightarrow> (Inl e, fs1)
              | Inr fs2 \<Rightarrow> (Inr dataset_id, fs2)))"

text \<open>
  The last block of \<^verbatim>\<open>load_dataset\<close>: the name starts as the default and is replaced
  only when the metadata file exists, parses, is an object, and holds a true value
  under \<^verbatim>\<open>source_filename\<close>; every exception on the way is swallowed.
\<close>

definition meta_source_filename :: "'df codecs \<Rightarrow> filesystem \<Rightarrow> string \<Rightarrow> string \<Rightarrow> json" where
  "meta_source_filename cd fs storage_dir meta =
     (case lookup_file fs storage_dir meta of
        None \<Rightarrow> JStr ''uploaded_file''
      | Some f \<Rightarrow>
          (case json_loads cd (content f) of
             None \<Rightarrow> JStr ''uploaded_file''
           | Some meta_data \<Rightarrow>
               (case dict_get meta_data ''source_filename'' of
                  None \<Rightarrow> JStr ''uploaded_file''
                | Some v \<Rightarrow> (if truthy v then v else JStr ''uploaded_file''))))"

definition load_dataset ::
  "'df codecs \<Rightarrow> real \<Rightarrow> filesystem \<Rightarrow> string \<Rightarrow> string \<Rightarrow> int
     \<Rightarrow> (error + ('df \<times> json)) \<times> filesystem" where
  "load_dataset cd now fs dataset_id storage_dir ttl_seconds =
     (case resolve_dataset_path dataset_id of
        Inl e \<Rightarrow> (Inl e, fs)
      | Inr dpath \<Rightarrow>
     (case resolve_meta_path dataset_id of
        Inl e \<Rightarrow> (Inl e, fs)
      | Inr mpath \<Rightarrow>
          (if \<not> path_exists fs storage_dir dpath
           then (Inl (DatasetNotFoundError ''Uploaded dataset was not found.''), fs)
           else
             (case is_expired now fs storage_dir dpath ttl_seconds of
                Inl e \<Rightarrow> (Inl e, fs)
              | Inr True \<Rightarrow>
                  (case safe_unlink fs storage_dir dpath of
                     Inl e \<Rightarrow> (Inl e, fs)
                   | Inr fs1 \<Rightarrow>
                       (case safe_unlink fs1 storage_dir mpath of
                          Inl e \<Rightarrow> (Inl e, fs1)
                        | Inr fs2 \<Rightarrow>
                            (Inl (DatasetNotFoundError ''Uploaded dataset has expired.''), fs2)))
              | Inr False \<Rightarrow>
                  (case lookup_file fs storage_dir dpath of
                     None \<Rightarrow>
                       (Inl (DatasetNotFoundError ''Uploaded dataset could not be loaded.''), fs)
                   | Some f \<Rightarrow>
                       (case read_pickle cd (content f) of
                          None \<Rightarrow>
                            (Inl (DatasetNotFoundError ''Uploaded dataset could not be loaded.''),
                             fs)
                        | Some df \<Rightarrow>
                            (Inr (df, meta_source_filename cd fs storage_dir mpath), fs)))))))"

text \<open>
  The loop of \<^verbatim>\<open>cleanup_expired_datasets\<close> over the names the glob listed, with the
  file system and the count so far.
\<close>

fun cleanup_datasets_loop ::
  "real \<Rightarrow> string \<Rightarrow> int \<Rightarrow> string list \<Rightarrow> filesystem \<Rightarrow> nat \<Rightarrow> (error + nat) \<times> filesystem" where
  "cleanup_datasets_loop now storage_dir ttl_seconds [] fs deleted_count = (Inr deleted_count, fs)"
| "cleanup_datasets_loop now storage_dir ttl_seconds (p # ps) fs deleted_count =
     (case is_expired now fs storage_dir p ttl_seconds of
        Inl e \<Rightarrow> (Inl e, fs)
      | Inr False \<Rightarrow> cleanup_datasets_loop now storage_dir ttl_seconds ps fs deleted_count
      | Inr True \<Rightarrow>
          (case safe_unlink fs storage_dir p of
             Inl e \<Rightarrow> (Inl e, fs)
           | Inr fs1 \<Rightarrow>
               (case safe_unlink fs1 storage_dir (meta_path (stem p)) of
                  Inl e \<Rightarrow> (Inl e, fs1)
                | Inr fs2 \<Rightarrow>
                    cleanup_datasets_loop now storage_dir ttl_seconds ps fs2
                      (deleted_count + 1))))"

definition cleanup_expired_datasets ::
  "real \<Rightarrow> filesystem \<Rightarrow> string \<Rightarrow> int \<Rightarrow> (error + nat) \<times> filesystem" where
  "cleanup_expired_datasets now fs storage_dir ttl_seconds =
     (if \<not> dir_exists fs storage_dir then (Inr 0, fs)
      else cleanup_datasets_loop now storage_dir ttl_seconds
             (glob_suffix fs storage_dir DATASET_FILE_SUFFIX) fs 0)"

section \<open>The result store\<close>

definition RESULT_FILE_SUFFIX :: string where
  "RESULT_FILE_SUFFIX = ''.csv''"

definition resolve_result_path :: "string \<Rightarrow> error + string" where
  "resolve_result_path result_id =
     (if \<not> id_pattern_match result_id
      then Inl (ResultNotFoundError ''Invalid result identifier.'')
      else Inr (result_id @ RESULT_FILE_SUFFIX))"

definition save_result ::
  "'df codecs \<Rightarrow> real \<Rightarrow> 128 word \<Rightarrow> filesystem \<Rightarrow> 'df \<Rightarrow> string
     \<Rightarrow> (error + string) \<times> filesystem" where
  "save_result cd now uid fs df storage_dir =
     (let fs0 = mkdir fs storage_dir;
          result_id = uuid_hex uid
      in case write_bytes now fs0 storage_dir (result_id @ RESULT_FILE_SUFFIX) (to_csv cd df) of
           Inl e \<Rightarrow> (Inl e, fs0)
         | Inr fs1 \<Rightarrow> (Inr result_id, fs1))"

definition load_result_csv ::
  "real \<Rightarrow> filesystem \<Rightarrow> string \<Rightarrow> string \<Rightarrow> int \<Rightarrow> (error + bytes) \<times> filesystem" where
  "load_result_csv now fs result_id storage_dir ttl_seconds =
     (case resolve_result_path result_id of
        Inl e \<Rightarrow> (Inl e, fs)
      | Inr rpath \<Rightarrow>
          (if \<not> path_exists fs storage_dir rpath
           then (Inl (ResultNotFoundError (''Result '' @ result_id @ '' does not exist.'')), fs)
           else
             (case is_expired now fs storage_dir rpath ttl_seconds of
                Inl e \<Rightarrow> (Inl e, fs)
              | Inr True \<Rightarrow>
                  (case unlink fs storage_dir rpath True of
                     Inl e \<Rightarrow> (Inl e, fs)
                   | Inr fs1 \<Rightarrow>
                       (Inl (ResultNotFoundError (''Result '' @ result_id @ '' has expired.'')),
                        fs1))
              | Inr False \<Rightarrow> (read_bytes fs storage_dir rpath, fs))))"

fun cleanup_loop ::
  "real \<Rightarrow> string \<Rightarrow> int \<Rightarrow> string list \<Rightarrow> filesystem \<Rightarrow> nat \<Rightarrow> (error + nat) \<times> filesystem" where
  "cleanup_loop now storage_dir ttl_seconds [] fs deleted_count = (Inr deleted_count, fs)"
| "cleanup_loop now storage_dir ttl_seconds (p # ps) fs deleted_count =
     (case is_expired now fs storage_dir p ttl_seconds of
        Inl e \<Rightarrow> (Inl e, fs)
      | Inr False \<Rightarrow> cleanup_loop now storage_dir ttl_seconds ps fs deleted_count
      | Inr True \<Rightarrow>
          (case unlink fs storage_dir p True of
             Inl e \<Rightarrow> (Inl e, fs)
           | Inr fs1 \<Rightarrow>
               cleanup_loop now storage_dir ttl_seconds ps fs1 (deleted_count + 1)))"

definition cleanup_expired ::
  "real \<Rightarrow> filesystem \<Rightarrow> string \<Rightarrow> int \<Rightarrow> (error + nat) \<times> filesystem" where
  "cleanup_expired now fs storage_dir ttl_seconds =
     (if \<not> dir_exists fs storage_dir then (Inr 0, fs)
      else cleanup_loop now storage_dir ttl_seconds
             (glob_suffix fs storage_dir RESULT_FILE_SUFFIX) fs 0)"

section \<open>The application factory and the request hook\<close>

record config =
  RESULT_TTL_SECONDS :: int
  RESULT_CLEANUP_INTERVAL_SECONDS :: int
  RESULT_STORAGE_DIR :: string
  DATASET_STORAGE_DIR :: string

text \<open>The application: its configuration and \<^verbatim>\<open>extensions["last_result_cleanup_at"]\<close>.\<close>

record app =
  cfg :: config
  last_result_cleanup_at :: real

text \<open>
  The two calls that \<^verbatim>\<open>create_app\<close> and the request hook both make: the result store
  is swept first, then the dataset store, both with \<^verbatim>\<open>RESULT_TTL_SECONDS\<close>. An error
  of the first call ends the block.
\<close>

definition run_cleanups :: "real \<Rightarrow> config \<Rightarrow> filesystem \<Rightarrow> error option \<times> filesystem" where
  "run_cleanups now c fs =
     (case cleanup_expired now fs (RESULT_STORAGE_DIR c) (RESULT_TTL_SECONDS c) of
        (Inl e, fs1) \<Rightarrow> (Some e, fs1)
      | (Inr _, fs1) \<Rightarrow>
          (case cleanup_expired_datasets now fs1 (DATASET_STORAGE_DIR c) (RESULT_TTL_SECONDS c) of
             (Inl e, fs2) \<Rightarrow> (Some e, fs2)
           | (Inr _, fs2) \<Rightarrow> (None, fs2)))"

definition create_app :: "config \<Rightarrow> real \<Rightarrow> filesystem \<Rightarrow> (error + app) \<times> filesystem" where
  "create_app c now fs =
     (let fs1 = mkdir (mkdir fs (RESULT_STORAGE_DIR c)) (DATASET_STORAGE_DIR c);
          a = \<lparr>cfg = c, last_result_cleanup_at = 0\<rparr>
      in case run_cleanups now c fs1 of
           (Some e, fs2) \<Rightarrow> (Inl e, fs2)
         | (None, fs2) \<Rightarrow> (Inr a, fs2))"

text \<open>The gate of \<^verbatim>\<open>_cleanup_expired_result_files\<close>: \<^verbatim>\<open>now - last_run >= interval\<close>.\<close>

definition gate_open :: "app \<Rightarrow> real \<Rightarrow> bool" where
  "gate_open a now =
     (now - last_result_cleanup_at a \<ge> real_of_int (RESULT_CLEANUP_INTERVAL_SECONDS (cfg a)))"

text \<open>
  The hook that runs before every request, at time \<open>now\<close>. The time of the run is
  recorded after both sweeps; a sweep that raises leaves the recorded time as it was.
\<close>

definition before_request :: "app \<Rightarrow> real \<Rightarrow> filesystem \<Rightarrow> error option \<times> app \<times> filesystem" where
  "before_request a now fs =
     (if gate_open a now
      then (case run_cleanups now (cfg a) fs of
              (Some e, fs1) \<Rightarrow> (Some e, a, fs1)
            | (None, fs1) \<Rightarrow> (None, a\<lparr>last_result_cleanup_at := now\<rparr>, fs1))
      else (None, a, fs))"

text \<open>
  A run of the server: each request arrives at its time and finds the file system in
  some state (other handlers have worked on it since the request before). The result
  is the list of the times at which the hook swept, in order.
\<close>

fun serve :: "app \<Rightarrow> (real \<times> filesystem) list \<Rightarrow> real list" where
  "serve a [] = []"
| "serve a ((now, fs) # reqs) =
     (case before_request a now fs of
        (_, a1, _) \<Rightarrow> (if gate_open a now then [now] else []) @ serve a1 reqs)"

section \<open>The effect of a sweep, stated on the directory\<close>

text \<open>
  A directory is well formed when no name occurs twice in it, as in every real
  directory.
\<close>

definition dir_distinct :: "filesystem \<Rightarrow> string \<Rightarrow> bool" where
  "dir_distinct fs dir = (case fs dir of None \<Rightarrow> True | Some d \<Rightarrow> distinct (map fst d))"

text \<open>The names with the suffix whose age at \<open>now\<close> exceeds the time to live.\<close>

definition expired_names :: "real \<Rightarrow> int \<Rightarrow> string \<Rightarrow> directory \<Rightarrow> string list" where
  "expired_names now ttl_seconds suf d =
     map fst (filter (\<lambda>e. ends_with suf (fst e) \<and> now - mtime (snd e) > real_of_int ttl_seconds) d)"

text \<open>The directory without the entries whose name is in a given set.\<close>

definition without :: "string set \<Rightarrow> directory \<Rightarrow> directory" where
  "without X d = filter (\<lambda>e. fst e \<notin> X) d"

text \<open>
  What a sweep leaves of a directory: the result sweep removes the expired result
  files; the dataset sweep removes the expired payload files and, for each of them, the
  metadata file named after its stem.
\<close>

definition swept_results :: "real \<Rightarrow> int \<Rightarrow> directory \<Rightarrow> directory" where
  "swept_results now ttl_seconds d =
     without (set (expired_names now ttl_seconds RESULT_FILE_SUFFIX d)) d"

definition swept_datasets :: "real \<Rightarrow> int \<Rightarrow> directory \<Rightarrow> directory" where
  "swept_datasets now ttl_seconds d =
     without (set (expired_names now ttl_seconds DATASET_FILE_SUFFIX d)
              \<union> (\<lambda>p. meta_path (stem p)) ` set (expired_names now ttl_seconds DATASET_FILE_SUFFIX d)) d"

text \<open>A change of the entries of one directory, where that directory exists.\<close>

definition sweep_dir :: "(directory \<Rightarrow> directory) \<Rightarrow> filesystem \<Rightarrow> string \<Rightarrow> filesystem" where
  "sweep_dir f fs dir = (case fs dir of None \<Rightarrow> fs | Some d \<Rightarrow> fs(dir \<mapsto> f d))"

text \<open>Whether the file of a name in a directory is older than the time to live.\<close>

definition expired_in :: "real \<Rightarrow> int \<Rightarrow> directory \<Rightarrow> string \<Rightarrow> bool" where
  "expired_in now ttl_seconds d p =
     (case map_of d p of None \<Rightarrow> False | Some f \<Rightarrow> now - mtime f > real_of_int ttl_seconds)"

text \<open>A list of times in which each time is at least \<open>iv\<close> after the one before it.\<close>

fun spaced :: "real \<Rightarrow> real list \<Rightarrow> bool" where
  "spaced iv [] = True"
| "spaced iv [t] = True"
| "spaced iv (t # u # ts) = (u - t \<ge> iv \<and> spaced iv (u # ts))"

section \<open>An instance of the library functions, for the examples\<close>

text \<open>
  A small stand-in for the serialisers: a pickle is the table behind a three-byte
  header, a CSV is the table itself, and the only documents the metadata reader knows
  are the empty object and an object with the one key \<^verbatim>\<open>source_filename\<close>.
\<close>

definition example_dumps :: "json \<Rightarrow> bytes" where
  "example_dumps j =
     (case dict_get j ''source_filename'' of
        Some (JStr s) \<Rightarrow> ''{source_filename:'' @ s @ ''}''
      | _ \<Rightarrow> ''null'')"

definition example_loads :: "bytes \<Rightarrow> json option" where
  "example_loads b =
     (if b = ''{}'' then Some (JObj [])
      else if take 17 b = ''{source_filename:'' \<and> drop (length b - 1) b = ''}''
      then Some (JObj [(''source_filename'', JStr (take (length b - 18) (drop 17 b)))])
      else None)"

definition example_codecs :: "string codecs" where
  "example_codecs =
     \<lparr>to_pickle = (\<lambda>df. ''PKL'' @ df),
      read_pickle = (\<lambda>b. if take 3 b = ''PKL'' then Some (drop 3 b) else None),
      to_csv = (\<lambda>df. df),
      json_dumps = example_dumps,
      json_loads = example_loads\<rparr>"

text \<open>
  A well-formed identifier, and a file system with one dataset (payload and metadata)
  in the directory \<^verbatim>\<open>d\<close> and one result in the directory \<^verbatim>\<open>r\<close>, all written at
  time 1000.
\<close>

definition example_id :: string where
  "example_id = ''0123456789abcdef0123456789abcdef''"

definition example_fs :: filesystem where
  "example_fs =
     [''d'' \<mapsto>
        [(example_id @ ''.pkl'', \<lparr>content = ''PKLa,b'', mtime = 1000\<rparr>),
         (example_id @ ''.json'', \<lparr>content = ''{source_filename:in.csv}'', mtime = 1000\<rparr>)],
      ''r'' \<mapsto>
        [(example_id @ ''.csv'', \<lparr>content = ''a,b'', mtime = 1000\<rparr>)]]"

text \<open>
  Two storage directories for the examples of a sweep: datasets in \<^verbatim>\<open>d\<close>, results in
  \<^verbatim>\<open>r\<close>.
\<close>

definition example_sweep_fs :: filesystem where
  "example_sweep_fs =
     [''d'' \<mapsto> [(''a.pkl'', \<lparr>content = ''PKLa'', mtime = 1000\<rparr>),
                (''a.json'', \<lparr>content = ''{source_filename:a.csv}'', mtime = 1000\<rparr>),
                (''b.pkl'', \<lparr>content = ''PKLb'', mtime = 4000\<rparr>),
                (''b.json'', \<lparr>content = ''{source_filename:b.csv}'', mtime = 1000\<rparr>),
                (''c.json'', \<lparr>content = ''{source_filename:c.csv}'', mtime = 0\<rparr>)],
      ''r'' \<mapsto> [(''a.csv'', \<lparr>content = ''x,y'', mtime = 1000\<rparr>),
                (''b.csv'', \<lparr>content = ''u,v'', mtime = 4000\<rparr>),
                (''notes.txt'', \<lparr>content = ''n'', mtime = 0\<rparr>)]]"

text \<open>A dataset directory that holds a payload and no metadata file.\<close>

definition example_lone_fs :: filesystem where
  "example_lone_fs =
     [''d'' \<mapsto> [(example_id @ ''.pkl'', \<lparr>content = ''PKLa,b'', mtime = 1000\<rparr>)]]"

text \<open>
  A configuration with a time to live of an hour and a sweep every five minutes, the
  application as the factory returns it, and five requests with the file system each
  of them finds.
\<close>

definition example_config :: config where
  "example_config =
     \<lparr>RESULT_TTL_SECONDS = 3600, RESULT_CLEANUP_INTERVAL_SECONDS = 300,
      RESULT_STORAGE_DIR = ''r'', DATASET_STORAGE_DIR = ''d''\<rparr>"

definition example_app :: app where
  "example_app = \<lparr>cfg = example_config, last_result_cleanup_at = 0\<rparr>"

definition example_requests :: "(real \<times> filesystem) list" where
  "example_requests =
     [(5000, example_sweep_fs), (5100, Map.empty), (5299, Map.empty), (5300, example_lone_fs),
      (5400, Map.empty)]"

section \<open>Facts about directories, names and identifiers\<close>

lemma map_of_without: "map_of (without X d) k = (if k \<in> X then None else map_of d k)"
  by (induction d) (auto simp: without_def)

lemma delete_without: "AList.delete k d = without {k} d"
  by (induction d) (auto simp: without_def)

lemma without_without: "without X (without Y d) = without (X \<union> Y) d"
  by (auto simp: without_def intro: filter_cong)

lemma distinct_without: "distinct (map fst d) \<Longrightarrow> distinct (map fst (without X d))"
  by (simp add: without_def distinct_map_filter)

lemma without_absent: "map_of d k = None \<Longrightarrow> without {k} d = d"
  by (induction d) (auto simp: without_def split: if_splits)

lemma safe_unlink_Some:
  "fs dir = Some d \<Longrightarrow> safe_unlink fs dir name = Inr (fs(dir \<mapsto> without {name} d))"
  by (auto simp add: safe_unlink_def unlink_def delete_without without_absent)

lemma uuid_hex_length: "length (uuid_hex w) = 32"
  by (simp add: uuid_hex_def)

lemma hex_digits_length: "length hex_digits = 16"
  by (simp add: hex_digits_def)

lemma hex_digit_in: "n < 16 \<Longrightarrow> hex_digits ! n \<in> set hex_digits"
  using nth_mem [of n hex_digits] by (simp only: hex_digits_length)

text \<open>Every identifier that save generates passes the check of load.\<close>

lemma uuid_hex_match: "id_pattern_match (uuid_hex w)"
proof -
  have "\<forall>c \<in> set (uuid_hex w). c \<in> set hex_digits"
    unfolding uuid_hex_def by (auto intro!: hex_digit_in)
  then show ?thesis
    unfolding id_pattern_match_def by (simp add: uuid_hex_length list_all_iff)
qed

lemma rfind_suffix:
  "CHR ''.'' \<notin> set suf \<Longrightarrow> rfind (CHR ''.'') (x @ CHR ''.'' # suf) = Some (length x)"
proof -
  assume a: "CHR ''.'' \<notin> set suf"
  then have "takeWhile (\<lambda>c. c \<noteq> CHR ''.'') (rev suf @ CHR ''.'' # rev x) = rev suf"
    by (subst takeWhile_append2) auto
  then show ?thesis by (simp add: rfind_def)
qed

text \<open>The stem of the payload name of a non-empty identifier is the identifier.\<close>

lemma stem_dataset_path: "x \<noteq> [] \<Longrightarrow> stem (dataset_path x) = x"
  using rfind_suffix [of "''pkl''" x] by (simp add: stem_def dataset_path_def DATASET_FILE_SUFFIX_def)

lemma stem_bare_suffix: "stem ''.pkl'' = ''.pkl''"
  using rfind_suffix [of "''pkl''" "[]"] by (simp add: stem_def)

lemma ends_with_append: "ends_with suf (x @ suf)"
  by (simp add: ends_with_def)

section \<open>What load and save compute\<close>

lemma lookup_file_upd: "lookup_file (fs(dir \<mapsto> d)) dir name = map_of d name"
  by (simp add: lookup_file_def)

lemma lookup_file_Some: "fs dir = Some d \<Longrightarrow> lookup_file fs dir name = map_of d name"
  by (simp add: lookup_file_def)

lemma lookup_file_dir:
  "lookup_file fs dir name = Some f \<Longrightarrow> \<exists>d. fs dir = Some d \<and> map_of d name = Some f"
  by (auto simp: lookup_file_def split: option.splits)

lemma is_expired_present:
  "lookup_file fs dir name = Some f \<Longrightarrow>
   is_expired now fs dir name ttl = Inr (now - mtime f > real_of_int ttl)"
  by (simp add: is_expired_def stat_mtime_def)

lemma paths_differ: "dataset_path i \<noteq> meta_path i"
  by (simp add: dataset_path_def meta_path_def DATASET_FILE_SUFFIX_def DATASET_META_SUFFIX_def)

text \<open>A load of a well-formed identifier whose payload file is there.\<close>

lemma load_dataset_present:
  assumes "id_pattern_match i" and "fs dir = Some d" and "map_of d (dataset_path i) = Some f"
  shows "load_dataset cd now fs i dir ttl =
     (if now - mtime f > real_of_int ttl
      then (Inl (DatasetNotFoundError ''Uploaded dataset has expired.''),
            fs(dir \<mapsto> without {dataset_path i, meta_path i} d))
      else (case read_pickle cd (content f) of
              None \<Rightarrow> (Inl (DatasetNotFoundError ''Uploaded dataset could not be loaded.''), fs)
            | Some df \<Rightarrow> (Inr (df, meta_source_filename cd fs dir (meta_path i)), fs)))"
proof -
  have l: "lookup_file fs dir (dataset_path i) = Some f"
    using assms by (simp add: lookup_file_Some)
  have u: "safe_unlink (fs(dir \<mapsto> without {dataset_path i} d)) dir (meta_path i)
        = Inr (fs(dir \<mapsto> without {dataset_path i, meta_path i} d))"
    by (subst safe_unlink_Some [where d = "without {dataset_path i} d"])
       (simp_all add: without_without insert_commute)
  show ?thesis
    using assms l u
    by (simp add: load_dataset_def resolve_dataset_path_def resolve_meta_path_def
        path_exists_def is_expired_present safe_unlink_Some split: option.splits)
qed

lemma load_result_present:
  assumes "id_pattern_match i" and "fs dir = Some d"
    and "map_of d (i @ RESULT_FILE_SUFFIX) = Some f"
  shows "load_result_csv now fs i dir ttl =
     (if now - mtime f > real_of_int ttl
      then (Inl (ResultNotFoundError (''Result '' @ i @ '' has expired.'')),
            fs(dir \<mapsto> without {i @ RESULT_FILE_SUFFIX} d))
      else (Inr (content f), fs))"
proof -
  have l: "lookup_file fs dir (i @ RESULT_FILE_SUFFIX) = Some f"
    using assms by (simp add: lookup_file_Some)
  show ?thesis
    using assms l safe_unlink_Some [of fs dir d "i @ RESULT_FILE_SUFFIX"]
    by (simp add: load_result_csv_def resolve_result_path_def read_bytes_def
        path_exists_def is_expired_present safe_unlink_def)
qed

lemma mkdir_dir: "mkdir fs dir dir = Some (case fs dir of None \<Rightarrow> [] | Some d \<Rightarrow> d)"
  by (simp add: mkdir_def split: option.splits)

lemma write_bytes_Some:
  "fs dir = Some d \<Longrightarrow>
   write_bytes now fs dir name b
     = Inr (fs(dir \<mapsto> AList.update name \<lparr>content = b, mtime = now\<rparr> d))"
  by (simp add: write_bytes_def)

text \<open>Save never fails: the directory is made first, then the files are written.\<close>

lemma save_dataset_eq:
  "save_dataset cd now uid fs df sf dir =
     (Inr (uuid_hex uid),
      (mkdir fs dir)(dir \<mapsto>
         AList.update (meta_path (uuid_hex uid))
           \<lparr>content = json_dumps cd (JObj [(''source_filename'',
                JStr (if sf = [] then ''uploaded_file'' else sf))]), mtime = now\<rparr>
           (AList.update (dataset_path (uuid_hex uid)) \<lparr>content = to_pickle cd df, mtime = now\<rparr>
              (case fs dir of None \<Rightarrow> [] | Some d \<Rightarrow> d))))"
  by (simp add: save_dataset_def Let_def write_bytes_Some [OF mkdir_dir] write_bytes_Some)

lemma save_result_eq:
  "save_result cd now uid fs df dir =
     (Inr (uuid_hex uid),
      (mkdir fs dir)(dir \<mapsto>
         AList.update (uuid_hex uid @ RESULT_FILE_SUFFIX) \<lparr>content = to_csv cd df, mtime = now\<rparr>
              (case fs dir of None \<Rightarrow> [] | Some d \<Rightarrow> d)))"
  by (simp add: save_result_def Let_def write_bytes_Some [OF mkdir_dir])

text \<open>
  Save followed at once by load, for any time to live that is not negative. The name
  that comes back is the one save wrote, which is the default when the name given was
  empty.
\<close>

lemma round_trip_dataset:
  assumes "0 \<le> ttl"
    and "read_pickle cd (to_pickle cd df) = Some df"
    and "json_loads cd (json_dumps cd (JObj [(''source_filename'',
            JStr (if sf = [] then ''uploaded_file'' else sf))]))
          = Some (JObj [(''source_filename'', JStr (if sf = [] then ''uploaded_file'' else sf))])"
  shows "load_dataset cd now (snd (save_dataset cd now uid fs df sf dir)) (uuid_hex uid) dir ttl
       = (Inr (df, JStr (if sf = [] then ''uploaded_file'' else sf)),
          snd (save_dataset cd now uid fs df sf dir))"
proof -
  let ?fs = "snd (save_dataset cd now uid fs df sf dir)"
  let ?i = "uuid_hex uid"
  obtain d where d: "?fs dir = Some d"
    and p: "map_of d (dataset_path ?i) = Some \<lparr>content = to_pickle cd df, mtime = now\<rparr>"
    and m: "map_of d (meta_path ?i) = Some \<lparr>content = json_dumps cd (JObj [(''source_filename'',
              JStr (if sf = [] then ''uploaded_file'' else sf))]), mtime = now\<rparr>"
    using paths_differ [of ?i] by (simp add: save_dataset_eq update_conv')
  have n: "meta_source_filename cd ?fs dir (meta_path ?i)
         = JStr (if sf = [] then ''uploaded_file'' else sf)"
    using assms(3) d m by (simp add: meta_source_filename_def lookup_file_Some dict_get_def)
  show ?thesis
    using assms(1,2) n
    by (simp add: load_dataset_present [where fs = ?fs and dir = dir, OF uuid_hex_match d p])
qed

lemma round_trip_result:
  assumes "0 \<le> ttl"
  shows "load_result_csv now (snd (save_result cd now uid fs df dir)) (uuid_hex uid) dir ttl
       = (Inr (to_csv cd df), snd (save_result cd now uid fs df dir))"
proof -
  let ?fs = "snd (save_result cd now uid fs df dir)"
  let ?i = "uuid_hex uid"
  obtain d where d: "?fs dir = Some d"
    and p: "map_of d (?i @ RESULT_FILE_SUFFIX) = Some \<lparr>content = to_csv cd df, mtime = now\<rparr>"
    by (simp add: save_result_eq update_conv')
  show ?thesis
    using assms
    by (simp add: load_result_present [where fs = ?fs and dir = dir, OF uuid_hex_match d p])
qed

section \<open>The examples, evaluated\<close>

lemma example_id_match: "id_pattern_match example_id"
  by (simp add: id_pattern_match_def example_id_def hex_digits_def)

lemma example_codecs_pickle: "read_pickle example_codecs (to_pickle example_codecs df) = Some df"
  by (simp add: example_codecs_def)

lemma example_codecs_json_in:
  "json_loads example_codecs
     (json_dumps example_codecs (JObj [(''source_filename'', JStr ''in.csv'')]))
     = Some (JObj [(''source_filename'', JStr ''in.csv'')])"
  by (simp add: example_codecs_def example_dumps_def example_loads_def dict_get_def)

lemma example_codecs_json_default:
  "json_loads example_codecs
     (json_dumps example_codecs (JObj [(''source_filename'', JStr ''uploaded_file'')]))
     = Some (JObj [(''source_filename'', JStr ''uploaded_file'')])"
  by (simp add: example_codecs_def example_dumps_def example_loads_def dict_get_def)

lemma example_lookup_pkl:
  "lookup_file example_fs ''d'' (dataset_path example_id)
     = Some \<lparr>content = ''PKLa,b'', mtime = 1000\<rparr>"
  by (simp add: example_fs_def lookup_file_def dataset_path_def DATASET_FILE_SUFFIX_def)

lemma example_lookup_json:
  "lookup_file example_fs ''d'' (meta_path example_id)
     = Some \<lparr>content = ''{source_filename:in.csv}'', mtime = 1000\<rparr>"
  by (simp add: example_fs_def lookup_file_def meta_path_def DATASET_META_SUFFIX_def example_id_def)

lemma example_lookup_csv:
  "lookup_file example_fs ''r'' (example_id @ RESULT_FILE_SUFFIX)
     = Some \<lparr>content = ''a,b'', mtime = 1000\<rparr>"
  by (simp add: example_fs_def lookup_file_def RESULT_FILE_SUFFIX_def)

section \<open>The round trip of save and load\<close>

text \<open>
  Claim C1, as amended. A payload saved with a time to live above zero and loaded at
  once, with the identifier save returned, the same directory and no time elapsed,
  comes back as it was: the bytes of the CSV for a result, and the table for a dataset
  (this half given that the pickle reader inverts the pickle writer, and the metadata
  reader the metadata writer, on what was written). The source file name comes back as it
  was when it is not empty; an empty name comes back as \<^verbatim>\<open>uploaded_file\<close>, which is
  what save wrote in its place.
\<close>

theorem round_trip_law:
  assumes "0 < ttl_seconds"
  shows "fst (save_dataset cd now uid fs df source_filename dir) = Inr (uuid_hex uid)
       \<and> (read_pickle cd (to_pickle cd df) = Some df
          \<and> json_loads cd (json_dumps cd (JObj [(''source_filename'',
               JStr (if source_filename = [] then ''uploaded_file'' else source_filename))]))
             = Some (JObj [(''source_filename'',
               JStr (if source_filename = [] then ''uploaded_file'' else source_filename))])
          \<longrightarrow> load_dataset cd now (snd (save_dataset cd now uid fs df source_filename dir))
                (uuid_hex uid) dir ttl_seconds
              = (Inr (df, JStr (if source_filename = [] then ''uploaded_file''
                               else source_filename)),
                 snd (save_dataset cd now uid fs df source_filename dir)))
       \<and> fst (save_result cd now uid fs df dir) = Inr (uuid_hex uid)
       \<and> load_result_csv now (snd (save_result cd now uid fs df dir)) (uuid_hex uid) dir ttl_seconds
           = (Inr (to_csv cd df), snd (save_result cd now uid fs df dir))"
  using assms round_trip_dataset [of ttl_seconds cd df source_filename now uid fs dir]
    round_trip_result [of ttl_seconds now cd uid fs df dir]
  by (simp add: save_dataset_eq save_result_eq)

text \<open>The round trip of the table \<^verbatim>\<open>a,b\<close> with the name \<^verbatim>\<open>in.csv\<close> and a time to live of 3600.\<close>

theorem round_trip_law_witness:
  "(0::int) < 3600
   \<and> load_dataset example_codecs 1000
        (snd (save_dataset example_codecs 1000 7 Map.empty ''a,b'' ''in.csv'' ''d''))
        (uuid_hex 7) ''d'' 3600
      = (Inr (''a,b'', JStr ''in.csv''),
         snd (save_dataset example_codecs 1000 7 Map.empty ''a,b'' ''in.csv'' ''d''))
   \<and> load_result_csv 1000 (snd (save_result example_codecs 1000 7 Map.empty ''a,b'' ''r''))
        (uuid_hex 7) ''r'' 3600
      = (Inr ''a,b'', snd (save_result example_codecs 1000 7 Map.empty ''a,b'' ''r''))"
  using round_trip_law [where ttl_seconds = 3600 and cd = example_codecs and df = "''a,b''"
      and source_filename = "''in.csv''" and now = 1000 and uid = 7 and fs = Map.empty
      and dir = "''d''"]
    round_trip_law [where ttl_seconds = 3600 and cd = example_codecs and df = "''a,b''"
      and source_filename = "''in.csv''" and now = 1000 and uid = 7 and fs = Map.empty
      and dir = "''r''"]
    example_codecs_pickle [of "''a,b''"] example_codecs_json_in
  by (simp add: example_codecs_def)

text \<open>
  Claim C1 as it was stated fails for the empty file name: save writes
  \<^verbatim>\<open>source_filename or "uploaded_file"\<close>, and load returns that.
\<close>

theorem round_trip_empty_filename_counterexample:
  "fst (save_dataset example_codecs 1000 7 Map.empty ''a,b'' [] ''d'') = Inr (uuid_hex 7)
   \<and> fst (load_dataset example_codecs 1000
        (snd (save_dataset example_codecs 1000 7 Map.empty ''a,b'' [] ''d''))
        (uuid_hex 7) ''d'' 3600)
      = Inr (''a,b'', JStr ''uploaded_file'')
   \<and> JStr ''uploaded_file'' \<noteq> JStr []"
  using round_trip_dataset [of 3600 example_codecs "''a,b''" "[]" 1000 7 Map.empty "''d''"]
    example_codecs_pickle [of "''a,b''"] example_codecs_json_default
  by (simp add: save_dataset_eq)

section \<open>Expiry on load\<close>

lemma path_exists_without:
  "fs dir = Some d \<Longrightarrow>
   path_exists (fs(dir \<mapsto> without X d)) dir name \<longleftrightarrow> name \<notin> X \<and> path_exists fs dir name"
  by (simp add: path_exists_def lookup_file_def map_of_without)

lemma example_meta_name:
  "meta_source_filename example_codecs example_fs ''d'' (meta_path example_id) = JStr ''in.csv''"
  by (simp add: meta_source_filename_def example_lookup_json example_codecs_def
      example_loads_def dict_get_def)


text \<open>
  Claim C2, for each store on its own. Take a well-formed identifier whose payload file
  is in the storage directory. When the age of the file (the time of the load minus
  its last-modified time) is above the time to live, load fails with the not-found
  error of its store and leaves the file system without the payload file and, for a
  dataset, without the metadata file of that identifier, every other file being as it
  was. When the age is at most the time to live, the file is not expired, load leaves
  the file system as it is, and it succeeds: always for a result, and for a dataset
  whenever the payload deserialises.
\<close>

theorem ttl_boundary_and_lazy_deletion:
  "(id_pattern_match i \<and> fs ddir = Some d \<and> map_of d (dataset_path i) = Some f \<longrightarrow>
      (now_late - mtime f > real_of_int ttl_seconds \<longrightarrow>
         load_dataset cd now_late fs i ddir ttl_seconds
           = (Inl (DatasetNotFoundError ''Uploaded dataset has expired.''),
              fs(ddir \<mapsto> without {dataset_path i, meta_path i} d))
       \<and> \<not> path_exists (snd (load_dataset cd now_late fs i ddir ttl_seconds)) ddir
             (dataset_path i)
       \<and> \<not> path_exists (snd (load_dataset cd now_late fs i ddir ttl_seconds)) ddir
             (meta_path i))
    \<and> (now_early - mtime f \<le> real_of_int ttl_seconds \<longrightarrow>
         is_expired now_early fs ddir (dataset_path i) ttl_seconds = Inr False
       \<and> snd (load_dataset cd now_early fs i ddir ttl_seconds) = fs
       \<and> (\<forall>df. read_pickle cd (content f) = Some df \<longrightarrow>
             load_dataset cd now_early fs i ddir ttl_seconds
               = (Inr (df, meta_source_filename cd fs ddir (meta_path i)), fs))))
   \<and> (id_pattern_match j \<and> gs rdir = Some r \<and> map_of r (j @ RESULT_FILE_SUFFIX) = Some g \<longrightarrow>
      (now_late - mtime g > real_of_int ttl_seconds \<longrightarrow>
         load_result_csv now_late gs j rdir ttl_seconds
           = (Inl (ResultNotFoundError (''Result '' @ j @ '' has expired.'')),
              gs(rdir \<mapsto> without {j @ RESULT_FILE_SUFFIX} r))
       \<and> \<not> path_exists (snd (load_result_csv now_late gs j rdir ttl_seconds)) rdir
             (j @ RESULT_FILE_SUFFIX))
    \<and> (now_early - mtime g \<le> real_of_int ttl_seconds \<longrightarrow>
         is_expired now_early gs rdir (j @ RESULT_FILE_SUFFIX) ttl_seconds = Inr False
       \<and> load_result_csv now_early gs j rdir ttl_seconds = (Inr (content g), gs)))"
proof -
  have dataset: "?thesis" if m: "id_pattern_match i" and d: "fs ddir = Some d"
    and p: "map_of d (dataset_path i) = Some f" and n: "\<not> (id_pattern_match j
      \<and> gs rdir = Some r \<and> map_of r (j @ RESULT_FILE_SUFFIX) = Some g)"
    using n d p m
    by (auto simp: load_dataset_present [where fs = fs and dir = ddir, OF m d p]
        path_exists_without is_expired_present lookup_file_Some split: option.splits)
  have result: "?thesis" if m: "id_pattern_match j" and r: "gs rdir = Some r"
    and q: "map_of r (j @ RESULT_FILE_SUFFIX) = Some g" and n: "\<not> (id_pattern_match i
      \<and> fs ddir = Some d \<and> map_of d (dataset_path i) = Some f)"
    using n r q m
    by (auto simp: load_result_present [where fs = gs and dir = rdir, OF m r q]
        path_exists_without is_expired_present lookup_file_Some)
  have both: "?thesis" if m: "id_pattern_match i" and d: "fs ddir = Some d"
    and p: "map_of d (dataset_path i) = Some f" and m': "id_pattern_match j"
    and r: "gs rdir = Some r" and q: "map_of r (j @ RESULT_FILE_SUFFIX) = Some g"
    using d p r q
    by (auto simp: load_dataset_present [where fs = fs and dir = ddir, OF m d p]
        load_result_present [where fs = gs and dir = rdir, OF m' r q]
        path_exists_without is_expired_present lookup_file_Some split: option.splits)
  show ?thesis
    using dataset result both by blast
qed

text \<open>
  The example files are written at time 1000 and the time to live is 3600: a load at
  4601 finds them expired and removes them, a load at 4600 returns them.
\<close>

theorem ttl_boundary_and_lazy_deletion_witness:
  "id_pattern_match example_id
   \<and> (4601 :: real) - 1000 > real_of_int 3600 \<and> (4600 :: real) - 1000 \<le> real_of_int 3600
   \<and> fst (load_dataset example_codecs 4601 example_fs example_id ''d'' 3600)
       = Inl (DatasetNotFoundError ''Uploaded dataset has expired.'')
   \<and> \<not> path_exists (snd (load_dataset example_codecs 4601 example_fs example_id ''d'' 3600)) ''d''
         (dataset_path example_id)
   \<and> \<not> path_exists (snd (load_dataset example_codecs 4601 example_fs example_id ''d'' 3600)) ''d''
         (meta_path example_id)
   \<and> fst (load_result_csv 4601 example_fs example_id ''r'' 3600)
       = Inl (ResultNotFoundError (''Result '' @ example_id @ '' has expired.''))
   \<and> \<not> path_exists (snd (load_result_csv 4601 example_fs example_id ''r'' 3600)) ''r''
         (example_id @ RESULT_FILE_SUFFIX)
   \<and> load_dataset example_codecs 4600 example_fs example_id ''d'' 3600
       = (Inr (''a,b'', JStr ''in.csv''), example_fs)
   \<and> load_result_csv 4600 example_fs example_id ''r'' 3600 = (Inr ''a,b'', example_fs)"
proof -
  let ?d = "[(example_id @ ''.pkl'', \<lparr>content = ''PKLa,b'', mtime = 1000\<rparr>),
         (example_id @ ''.json'', \<lparr>content = ''{source_filename:in.csv}'', mtime = 1000\<rparr>)]"
  let ?r = "[(example_id @ ''.csv'', \<lparr>content = ''a,b'', mtime = 1000\<rparr>)]"
  have d: "example_fs ''d'' = Some ?d" and r: "example_fs ''r'' = Some ?r"
    by (simp_all add: example_fs_def)
  have p: "map_of ?d (dataset_path example_id) = Some \<lparr>content = ''PKLa,b'', mtime = 1000\<rparr>"
    by (simp add: dataset_path_def DATASET_FILE_SUFFIX_def)
  have q: "map_of ?r (example_id @ RESULT_FILE_SUFFIX) = Some \<lparr>content = ''a,b'', mtime = 1000\<rparr>"
    by (simp add: RESULT_FILE_SUFFIX_def)
  have pk: "read_pickle example_codecs ''PKLa,b'' = Some ''a,b''"
    by (simp add: example_codecs_def)
  show ?thesis
    using ttl_boundary_and_lazy_deletion [where now_late = 4601 and now_early = 4600
        and ttl_seconds = 3600 and cd = example_codecs and i = example_id and j = example_id
        and fs = example_fs and gs = example_fs and ddir = "''d''" and rdir = "''r''"
        and d = ?d and r = ?r and f = "\<lparr>content = ''PKLa,b'', mtime = 1000\<rparr>"
        and g = "\<lparr>content = ''a,b'', mtime = 1000\<rparr>"] d r p q pk
    by (simp add: example_id_match example_meta_name
        path_exists_without [where fs = example_fs and dir = "''d''", OF d]
        path_exists_without [where fs = example_fs and dir = "''r''", OF r])
qed

section \<open>Corrupt payloads\<close>

text \<open>
  Claim C6. For a well-formed identifier whose payload file is there and not expired,
  a payload that fails to deserialise makes load fail with \<^verbatim>\<open>DatasetNotFoundError\<close>,
  the same error class as for an absent or expired dataset, and nothing is deleted.
\<close>

theorem corrupt_payload_is_not_found:
  assumes "id_pattern_match i"
    and "lookup_file fs dir (dataset_path i) = Some f"
    and "now - mtime f \<le> real_of_int ttl_seconds"
    and "read_pickle cd (content f) = None"
  shows "load_dataset cd now fs i dir ttl_seconds
           = (Inl (DatasetNotFoundError ''Uploaded dataset could not be loaded.''), fs)
       \<and> is_not_found (DatasetNotFoundError ''Uploaded dataset could not be loaded.'')"
proof -
  obtain d where d: "fs dir = Some d" and p: "map_of d (dataset_path i) = Some f"
    using lookup_file_dir [OF assms(2)] by blast
  show ?thesis
    using assms(3,4)
    by (simp add: load_dataset_present [where fs = fs and dir = dir, OF assms(1) d p])
qed

text \<open>A payload file without the pickle header, loaded one second after it was written.\<close>

theorem corrupt_payload_is_not_found_witness:
  "id_pattern_match example_id
   \<and> lookup_file [''d'' \<mapsto> [(example_id @ ''.pkl'', \<lparr>content = ''garbage'', mtime = 1000\<rparr>)]]
        ''d'' (dataset_path example_id) = Some \<lparr>content = ''garbage'', mtime = 1000\<rparr>
   \<and> (1001 :: real) - 1000 \<le> real_of_int 3600
   \<and> read_pickle example_codecs ''garbage'' = None
   \<and> fst (load_dataset example_codecs 1001
        [''d'' \<mapsto> [(example_id @ ''.pkl'', \<lparr>content = ''garbage'', mtime = 1000\<rparr>)]]
        example_id ''d'' 3600)
      = Inl (DatasetNotFoundError ''Uploaded dataset could not be loaded.'')"
proof -
  let ?fs = "[''d'' \<mapsto> [(example_id @ ''.pkl'', \<lparr>content = ''garbage'', mtime = 1000\<rparr>)]]"
  have l: "lookup_file ?fs ''d'' (dataset_path example_id) = Some \<lparr>content = ''garbage'', mtime = 1000\<rparr>"
    by (simp add: lookup_file_def dataset_path_def DATASET_FILE_SUFFIX_def)
  have c: "read_pickle example_codecs (content \<lparr>content = ''garbage'', mtime = 1000\<rparr>) = None"
    by (simp add: example_codecs_def)
  have a: "(1001 :: real) - mtime \<lparr>content = ''garbage'', mtime = 1000\<rparr> \<le> real_of_int 3600"
    by simp
  show ?thesis
    using corrupt_payload_is_not_found [OF example_id_match l a c] l c
    by (simp add: example_id_match)
qed

section \<open>The metadata of a dataset\<close>

text \<open>
  Claim C7, as amended. A dataset load whose existence, freshness and deserialisation
  checks pass succeeds whatever the metadata file holds, and changes nothing. The name
  it returns is the value under \<^verbatim>\<open>source_filename\<close> when the metadata file exists,
  parses to an object and that value is true in Python's sense (for a string: not
  empty). It is the default \<^verbatim>\<open>uploaded_file\<close> when the file is absent, when it cannot
  be read or parsed, when it parses to something that is not an object, and when the
  value is missing or false (an empty string, for one).
\<close>

theorem metadata_degradation:
  assumes "id_pattern_match i"
    and "lookup_file fs dir (dataset_path i) = Some f"
    and "now - mtime f \<le> real_of_int ttl_seconds"
    and "read_pickle cd (content f) = Some df"
  shows "load_dataset cd now fs i dir ttl_seconds
           = (Inr (df, meta_source_filename cd fs dir (meta_path i)), fs)
       \<and> (\<forall>m j v. lookup_file fs dir (meta_path i) = Some m
              \<and> json_loads cd (content m) = Some j
              \<and> dict_get j ''source_filename'' = Some v \<and> truthy v
            \<longrightarrow> meta_source_filename cd fs dir (meta_path i) = v)
       \<and> (lookup_file fs dir (meta_path i) = None
            \<longrightarrow> meta_source_filename cd fs dir (meta_path i) = JStr ''uploaded_file'')
       \<and> (\<forall>m. lookup_file fs dir (meta_path i) = Some m \<and> json_loads cd (content m) = None
            \<longrightarrow> meta_source_filename cd fs dir (meta_path i) = JStr ''uploaded_file'')
       \<and> (\<forall>m j. lookup_file fs dir (meta_path i) = Some m
              \<and> json_loads cd (content m) = Some j
              \<and> dict_get j ''source_filename'' = None
            \<longrightarrow> meta_source_filename cd fs dir (meta_path i) = JStr ''uploaded_file'')
       \<and> (\<forall>m j v. lookup_file fs dir (meta_path i) = Some m
              \<and> json_loads cd (content m) = Some j
              \<and> dict_get j ''source_filename'' = Some v \<and> \<not> truthy v
            \<longrightarrow> meta_source_filename cd fs dir (meta_path i) = JStr ''uploaded_file'')"
proof -
  obtain d where d: "fs dir = Some d" and p: "map_of d (dataset_path i) = Some f"
    using lookup_file_dir [OF assms(2)] by blast
  have "load_dataset cd now fs i dir ttl_seconds
           = (Inr (df, meta_source_filename cd fs dir (meta_path i)), fs)"
    using assms(3,4)
    by (simp add: load_dataset_present [where fs = fs and dir = dir, OF assms(1) d p])
  then show ?thesis
    by (simp add: meta_source_filename_def)
qed

text \<open>The example dataset, whose metadata names \<^verbatim>\<open>in.csv\<close>, loaded within its time to live.\<close>

theorem metadata_degradation_witness:
  "id_pattern_match example_id
   \<and> (4600 :: real) - 1000 \<le> real_of_int 3600
   \<and> read_pickle example_codecs ''PKLa,b'' = Some ''a,b''
   \<and> json_loads example_codecs ''{source_filename:in.csv}''
        = Some (JObj [(''source_filename'', JStr ''in.csv'')])
   \<and> load_dataset example_codecs 4600 example_fs example_id ''d'' 3600
        = (Inr (''a,b'', JStr ''in.csv''), example_fs)"
proof -
  have pk: "read_pickle example_codecs (content \<lparr>content = ''PKLa,b'', mtime = 1000\<rparr>) = Some ''a,b''"
    by (simp add: example_codecs_def)
  have a: "(4600 :: real) - mtime \<lparr>content = ''PKLa,b'', mtime = 1000\<rparr> \<le> real_of_int 3600"
    by simp
  have j: "json_loads example_codecs ''{source_filename:in.csv}''
        = Some (JObj [(''source_filename'', JStr ''in.csv'')])"
    by (simp add: example_codecs_def example_loads_def)
  show ?thesis
    using metadata_degradation [OF example_id_match example_lookup_pkl a pk] pk j
    by (simp add: example_id_match example_meta_name)
qed

text \<open>
  Claim C7 as it was stated fails for a metadata file that parses and holds the empty
  name: load returns the default, not the name in the file
  (\<^verbatim>\<open>meta_data.get("source_filename") or source_filename\<close>).
\<close>

theorem metadata_empty_name_counterexample:
  "json_loads example_codecs ''{source_filename:}''
     = Some (JObj [(''source_filename'', JStr [])])
   \<and> fst (load_dataset example_codecs 1000
        [''d'' \<mapsto>
           [(example_id @ ''.pkl'', \<lparr>content = ''PKLa,b'', mtime = 1000\<rparr>),
            (example_id @ ''.json'', \<lparr>content = ''{source_filename:}'', mtime = 1000\<rparr>)]]
        example_id ''d'' 3600)
      = Inr (''a,b'', JStr ''uploaded_file'')
   \<and> JStr ''uploaded_file'' \<noteq> JStr []"
proof -
  let ?d = "[(example_id @ ''.pkl'', \<lparr>content = ''PKLa,b'', mtime = 1000\<rparr>),
            (example_id @ ''.json'', \<lparr>content = ''{source_filename:}'', mtime = 1000\<rparr>)]"
  let ?fs = "[''d'' \<mapsto> ?d]"
  have d: "?fs ''d'' = Some ?d" by simp
  have p: "map_of ?d (dataset_path example_id) = Some \<lparr>content = ''PKLa,b'', mtime = 1000\<rparr>"
    by (simp add: dataset_path_def DATASET_FILE_SUFFIX_def)
  have j: "json_loads example_codecs ''{source_filename:}''
     = Some (JObj [(''source_filename'', JStr [])])"
    by (simp add: example_codecs_def example_loads_def)
  have m: "meta_source_filename example_codecs ?fs ''d'' (meta_path example_id) = JStr ''uploaded_file''"
    using j by (simp add: meta_source_filename_def lookup_file_def meta_path_def
        DATASET_META_SUFFIX_def example_id_def dict_get_def)
  have pk: "read_pickle example_codecs ''PKLa,b'' = Some ''a,b''"
    by (simp add: example_codecs_def)
  show ?thesis
    using j m pk
    by (simp add: load_dataset_present [where fs = ?fs and dir = "''d''", OF example_id_match d p])
qed

section \<open>Malformed identifiers\<close>

text \<open>
  An identifier that the pattern rejects never reaches the file system: the result is
  the same on every file system, and the file system is returned as it was.
\<close>

lemma rejected_id_load_dataset:
  "\<not> id_pattern_match i \<Longrightarrow>
   load_dataset cd now fs i dir ttl = (Inl (DatasetNotFoundError ''Invalid dataset identifier.''), fs)"
  by (simp add: load_dataset_def resolve_dataset_path_def)

lemma rejected_id_load_result:
  "\<not> id_pattern_match i \<Longrightarrow>
   load_result_csv now fs i dir ttl = (Inl (ResultNotFoundError ''Invalid result identifier.''), fs)"
  by (simp add: load_result_csv_def resolve_result_path_def)

text \<open>
  The pattern accepts more than the 32-digit identifiers: \<^verbatim>\<open>$\<close> also matches before a
  final newline.
\<close>

lemma newline_id_match: "id_pattern_match (example_id @ [CHR 0x0A])"
  by (simp add: id_pattern_match_def example_id_def hex_digits_def)

text \<open>
  Claim C3, where the code departs from it. The identifier made of 32 hexadecimal
  digits and a newline has 33 characters, so it is not of the 32-character format, and
  yet it is resolved to a path and looked up: the result store returns the bytes of a
  file of that name when there is one, and reports \<^verbatim>\<open>does not exist\<close> (not
  \<^verbatim>\<open>Invalid result identifier\<close>) when there is none; the dataset store loads the
  file of that name likewise.
\<close>

theorem newline_identifier_reaches_filesystem:
  "length (example_id @ [CHR 0x0A]) = 33
   \<and> resolve_result_path (example_id @ [CHR 0x0A]) = Inr (example_id @ [CHR 0x0A] @ ''.csv'')
   \<and> fst (load_result_csv 1000
        [''r'' \<mapsto> [(example_id @ [CHR 0x0A] @ ''.csv'', \<lparr>content = ''a,b'', mtime = 1000\<rparr>)]]
        (example_id @ [CHR 0x0A]) ''r'' 3600) = Inr ''a,b''
   \<and> fst (load_result_csv 1000 Map.empty (example_id @ [CHR 0x0A]) ''r'' 3600)
       = Inl (ResultNotFoundError (''Result '' @ example_id @ [CHR 0x0A] @ '' does not exist.''))
   \<and> fst (load_dataset example_codecs 1000
        [''d'' \<mapsto> [(example_id @ [CHR 0x0A] @ ''.pkl'', \<lparr>content = ''PKLa,b'', mtime = 1000\<rparr>)]]
        (example_id @ [CHR 0x0A]) ''d'' 3600) = Inr (''a,b'', JStr ''uploaded_file'')"
proof -
  let ?i = "example_id @ [CHR 0x0A]"
  let ?r = "[(?i @ ''.csv'', \<lparr>content = ''a,b'', mtime = 1000\<rparr>)]"
  let ?d = "[(?i @ ''.pkl'', \<lparr>content = ''PKLa,b'', mtime = 1000\<rparr>)]"
  have r: "[''r'' \<mapsto> ?r] ''r'' = Some ?r" and d: "[''d'' \<mapsto> ?d] ''d'' = Some ?d"
    by simp_all
  have q: "map_of ?r (?i @ RESULT_FILE_SUFFIX) = Some \<lparr>content = ''a,b'', mtime = 1000\<rparr>"
    by (simp add: RESULT_FILE_SUFFIX_def)
  have p: "map_of ?d (dataset_path ?i) = Some \<lparr>content = ''PKLa,b'', mtime = 1000\<rparr>"
    by (simp add: dataset_path_def DATASET_FILE_SUFFIX_def)
  have m: "meta_source_filename example_codecs [''d'' \<mapsto> ?d] ''d'' (meta_path ?i) = JStr ''uploaded_file''"
    by (simp add: meta_source_filename_def lookup_file_def meta_path_def
        DATASET_META_SUFFIX_def example_id_def)
  have pk: "read_pickle example_codecs ''PKLa,b'' = Some ''a,b''"
    by (simp add: example_codecs_def)
  have 1: "length ?i = 33" by (simp add: example_id_def)
  have 2: "resolve_result_path ?i = Inr (?i @ ''.csv'')"
    using newline_id_match by (simp add: resolve_result_path_def RESULT_FILE_SUFFIX_def)
  have 3: "fst (load_result_csv 1000 [''r'' \<mapsto> ?r] ?i ''r'' 3600) = Inr ''a,b''"
    using load_result_present [where fs = "[''r'' \<mapsto> ?r]" and dir = "''r''"
          and now = 1000 and ttl = 3600, OF newline_id_match r q]
    by simp
  have 4: "fst (load_result_csv 1000 Map.empty ?i ''r'' 3600)
       = Inl (ResultNotFoundError (''Result '' @ ?i @ '' does not exist.''))"
    using newline_id_match
    by (simp add: load_result_csv_def resolve_result_path_def path_exists_def lookup_file_def)
  have 5: "fst (load_dataset example_codecs 1000 [''d'' \<mapsto> ?d] ?i ''d'' 3600)
      = Inr (''a,b'', JStr ''uploaded_file'')"
    using m pk load_dataset_present [where fs = "[''d'' \<mapsto> ?d]" and dir = "''d''"
          and now = 1000 and ttl = 3600 and cd = example_codecs, OF newline_id_match d p]
    by simp
  show ?thesis using 1 2 3 4 5 by simp
qed

section \<open>What a sweep computes\<close>

lemma ends_with_iff: "ends_with suf s \<longleftrightarrow> (\<exists>x. s = x @ suf)"
proof
  assume "ends_with suf s"
  then have t: "take (length suf) (rev s) = rev suf" by (simp add: ends_with_def)
  have "rev s = take (length suf) (rev s) @ drop (length suf) (rev s)" by simp
  then have "rev s = rev suf @ drop (length suf) (rev s)" using t by simp
  then have "s = rev (rev suf @ drop (length suf) (rev s))" by (metis rev_rev_ident)
  then have "s = rev (drop (length suf) (rev s)) @ suf" by simp
  then show "\<exists>x. s = x @ suf" by blast
next
  assume "\<exists>x. s = x @ suf"
  then show "ends_with suf s" by (auto simp: ends_with_def)
qed

lemma meta_not_payload: "\<not> ends_with DATASET_FILE_SUFFIX (meta_path x)"
  by (simp add: ends_with_def DATASET_FILE_SUFFIX_def meta_path_def DATASET_META_SUFFIX_def)

lemma meta_not_result: "\<not> ends_with RESULT_FILE_SUFFIX (meta_path x)"
  by (simp add: ends_with_def RESULT_FILE_SUFFIX_def meta_path_def DATASET_META_SUFFIX_def)

lemma stem_payload_cases:
  assumes "ends_with DATASET_FILE_SUFFIX p"
  shows "stem p = p \<or> p = dataset_path (stem p)"
proof -
  obtain x where x: "p = x @ ''.pkl''"
    using assms by (auto simp: ends_with_iff DATASET_FILE_SUFFIX_def)
  show ?thesis
  proof (cases "x = []")
    case True
    then show ?thesis using x stem_bare_suffix by simp
  next
    case False
    then show ?thesis using x stem_dataset_path [of x] by (simp add: dataset_path_def DATASET_FILE_SUFFIX_def)
  qed
qed

lemma expired_in_without:
  "p \<notin> X \<Longrightarrow> expired_in now ttl (without X d) p = expired_in now ttl d p"
  by (simp add: expired_in_def map_of_without)

lemma is_expired_in:
  "fs dir = Some d \<Longrightarrow> map_of d p \<noteq> None \<Longrightarrow>
   is_expired now fs dir p ttl = Inr (expired_in now ttl d p)"
  by (auto simp: is_expired_def stat_mtime_def lookup_file_def expired_in_def)

lemma cleanup_datasets_loop_effect:
  assumes "fs dir = Some d" and "distinct ps"
    and "\<forall>p \<in> set ps. ends_with DATASET_FILE_SUFFIX p \<and> map_of d p \<noteq> None"
  shows "cleanup_datasets_loop now dir ttl ps fs n =
           (Inr (n + length (filter (expired_in now ttl d) ps)),
            fs(dir \<mapsto> without (set (filter (expired_in now ttl d) ps)
                 \<union> (\<lambda>p. meta_path (stem p)) ` set (filter (expired_in now ttl d) ps)) d))"
  using assms
proof (induction ps arbitrary: fs d n)
  case Nil
  from Nil.prems(1) have e: "fs(dir \<mapsto> d) = fs" by (rule map_upd_triv)
  show ?case by (simp add: without_def e)
next
  case (Cons p ps)
  have e: "is_expired now fs dir p ttl = Inr (expired_in now ttl d p)"
    using Cons.prems by (simp add: is_expired_in)
  show ?case
  proof (cases "expired_in now ttl d p")
    case False
    then show ?thesis using Cons e by simp
  next
    case True
    let ?m = "meta_path (stem p)"
    let ?d2 = "without {p, ?m} d"
    let ?fs2 = "fs(dir \<mapsto> ?d2)"
    have u1: "safe_unlink fs dir p = Inr (fs(dir \<mapsto> without {p} d))"
      using Cons.prems(1) by (rule safe_unlink_Some)
    have u2: "safe_unlink (fs(dir \<mapsto> without {p} d)) dir ?m = Inr ?fs2"
      by (subst safe_unlink_Some [where d = "without {p} d"])
         (simp_all add: without_without insert_commute)
    have notin: "\<forall>q \<in> set ps. q \<notin> {p, ?m}"
      using Cons.prems(2,3) meta_not_payload by auto
    have same: "filter (expired_in now ttl ?d2) ps = filter (expired_in now ttl d) ps"
      using notin by (intro filter_cong) (auto simp: expired_in_without)
    have pre: "\<forall>q \<in> set ps. ends_with DATASET_FILE_SUFFIX q \<and> map_of ?d2 q \<noteq> None"
      using Cons.prems(3) notin by (auto simp: map_of_without)
    have ih: "cleanup_datasets_loop now dir ttl ps ?fs2 (n + 1) =
           (Inr (n + 1 + length (filter (expired_in now ttl ?d2) ps)),
            ?fs2(dir \<mapsto> without (set (filter (expired_in now ttl ?d2) ps)
                 \<union> (\<lambda>p. meta_path (stem p)) ` set (filter (expired_in now ttl ?d2) ps)) ?d2))"
      using Cons.prems(2) pre by (intro Cons.IH) simp_all
    have sets: "set (filter (expired_in now ttl d) ps)
                 \<union> (\<lambda>p. meta_path (stem p)) ` set (filter (expired_in now ttl d) ps) \<union> {p, ?m}
              = set (filter (expired_in now ttl d) (p # ps))
                 \<union> (\<lambda>p. meta_path (stem p)) ` set (filter (expired_in now ttl d) (p # ps))"
      using True by auto
    have "cleanup_datasets_loop now dir ttl (p # ps) fs n
            = cleanup_datasets_loop now dir ttl ps ?fs2 (n + 1)"
      using True e u1 u2 by simp
    also note ih
    finally show ?thesis
      using True sets by (auto simp: same without_without Un_commute)
  qed
qed

lemma cleanup_loop_effect:
  assumes "fs dir = Some d" and "distinct ps"
    and "\<forall>p \<in> set ps. map_of d p \<noteq> None"
  shows "cleanup_loop now dir ttl ps fs n =
           (Inr (n + length (filter (expired_in now ttl d) ps)),
            fs(dir \<mapsto> without (set (filter (expired_in now ttl d) ps)) d))"
  using assms
proof (induction ps arbitrary: fs d n)
  case Nil
  from Nil.prems(1) have e: "fs(dir \<mapsto> d) = fs" by (rule map_upd_triv)
  show ?case by (simp add: without_def e)
next
  case (Cons p ps)
  have e: "is_expired now fs dir p ttl = Inr (expired_in now ttl d p)"
    using Cons.prems by (simp add: is_expired_in)
  show ?case
  proof (cases "expired_in now ttl d p")
    case False
    then show ?thesis using Cons e by simp
  next
    case True
    let ?d2 = "without {p} d"
    let ?fs2 = "fs(dir \<mapsto> ?d2)"
    have u1: "unlink fs dir p True = Inr ?fs2"
      using safe_unlink_Some [where fs = fs and dir = dir, OF Cons.prems(1)]
      by (simp add: safe_unlink_def)
    have notin: "\<forall>q \<in> set ps. q \<notin> {p}"
      using Cons.prems(2) by auto
    have same: "filter (expired_in now ttl ?d2) ps = filter (expired_in now ttl d) ps"
      using notin by (intro filter_cong) (auto simp: expired_in_without)
    have pre: "\<forall>q \<in> set ps. map_of ?d2 q \<noteq> None"
      using Cons.prems(3) notin by (auto simp: map_of_without)
    have ih: "cleanup_loop now dir ttl ps ?fs2 (n + 1) =
           (Inr (n + 1 + length (filter (expired_in now ttl ?d2) ps)),
            ?fs2(dir \<mapsto> without (set (filter (expired_in now ttl ?d2) ps)) ?d2))"
      using Cons.prems(2) pre by (intro Cons.IH) simp_all
    have sets: "set (filter (expired_in now ttl d) ps) \<union> {p}
              = set (filter (expired_in now ttl d) (p # ps))"
      using True by auto
    have "cleanup_loop now dir ttl (p # ps) fs n
            = cleanup_loop now dir ttl ps ?fs2 (n + 1)"
      using True e u1 by simp
    also note ih
    finally show ?thesis
      using True sets by (auto simp: same without_without Un_commute)
  qed
qed


lemma expired_in_entry:
  assumes "distinct (map fst d)" and "e \<in> set d"
  shows "expired_in now ttl d (fst e) \<longleftrightarrow> now - mtime (snd e) > real_of_int ttl"
proof -
  have "map_of d (fst e) = Some (snd e)"
    using assms by (cases e) simp
  then show ?thesis by (simp add: expired_in_def)
qed

lemma filter_expired_names:
  assumes "distinct (map fst d)"
  shows "filter (expired_in now ttl d) (filter (ends_with suf) (map fst d))
       = expired_names now ttl suf d"
proof -
  have "filter (expired_in now ttl d) (filter (ends_with suf) (map fst d))
      = map fst (filter (\<lambda>e. ends_with suf (fst e) \<and> expired_in now ttl d (fst e)) d)"
    by (simp add: filter_map comp_def conj_commute)
  also have "\<dots> = map fst (filter (\<lambda>e. ends_with suf (fst e)
                   \<and> now - mtime (snd e) > real_of_int ttl) d)"
    using assms by (intro arg_cong [where f = "map fst"] filter_cong) (auto simp: expired_in_entry)
  finally show ?thesis by (simp add: expired_names_def)
qed

lemma glob_present:
  "fs dir = Some d \<Longrightarrow> p \<in> set (glob_suffix fs dir suf) \<Longrightarrow> ends_with suf p \<and> map_of d p \<noteq> None"
  by (auto simp: glob_suffix_def map_of_eq_None_iff)

lemma glob_distinct:
  "fs dir = Some d \<Longrightarrow> distinct (map fst d) \<Longrightarrow> distinct (glob_suffix fs dir suf)"
  by (simp add: glob_suffix_def)

lemma cleanup_expired_datasets_effect:
  assumes "fs dir = Some d" and "distinct (map fst d)"
  shows "cleanup_expired_datasets now fs dir ttl =
           (Inr (length (expired_names now ttl DATASET_FILE_SUFFIX d)),
            fs(dir \<mapsto> swept_datasets now ttl d))"
proof -
  have g: "glob_suffix fs dir DATASET_FILE_SUFFIX = filter (ends_with DATASET_FILE_SUFFIX) (map fst d)"
    using assms(1) by (simp add: glob_suffix_def)
  have "cleanup_expired_datasets now fs dir ttl
      = cleanup_datasets_loop now dir ttl (glob_suffix fs dir DATASET_FILE_SUFFIX) fs 0"
    using assms(1) by (simp add: cleanup_expired_datasets_def dir_exists_def)
  also have "\<dots> = (Inr (0 + length (filter (expired_in now ttl d) (glob_suffix fs dir DATASET_FILE_SUFFIX))),
            fs(dir \<mapsto> without (set (filter (expired_in now ttl d) (glob_suffix fs dir DATASET_FILE_SUFFIX))
                 \<union> (\<lambda>p. meta_path (stem p)) `
                    set (filter (expired_in now ttl d) (glob_suffix fs dir DATASET_FILE_SUFFIX))) d))"
    using assms glob_present [where fs = fs and dir = dir, OF assms(1)]
      glob_distinct [where fs = fs and dir = dir, OF assms]
    by (intro cleanup_datasets_loop_effect) auto
  finally show ?thesis
    unfolding g filter_expired_names [OF assms(2)] swept_datasets_def by simp
qed

lemma cleanup_expired_effect:
  assumes "fs dir = Some d" and "distinct (map fst d)"
  shows "cleanup_expired now fs dir ttl =
           (Inr (length (expired_names now ttl RESULT_FILE_SUFFIX d)),
            fs(dir \<mapsto> swept_results now ttl d))"
proof -
  have g: "glob_suffix fs dir RESULT_FILE_SUFFIX = filter (ends_with RESULT_FILE_SUFFIX) (map fst d)"
    using assms(1) by (simp add: glob_suffix_def)
  have "cleanup_expired now fs dir ttl
      = cleanup_loop now dir ttl (glob_suffix fs dir RESULT_FILE_SUFFIX) fs 0"
    using assms(1) by (simp add: cleanup_expired_def dir_exists_def)
  also have "\<dots> = (Inr (0 + length (filter (expired_in now ttl d) (glob_suffix fs dir RESULT_FILE_SUFFIX))),
            fs(dir \<mapsto> without (set (filter (expired_in now ttl d) (glob_suffix fs dir RESULT_FILE_SUFFIX))) d))"
    using assms glob_present [where fs = fs and dir = dir, OF assms(1)]
      glob_distinct [where fs = fs and dir = dir, OF assms]
    by (intro cleanup_loop_effect) auto
  finally show ?thesis
    unfolding g filter_expired_names [OF assms(2)] swept_results_def by simp
qed

lemma cleanup_absent:
  "fs dir = None \<Longrightarrow> cleanup_expired_datasets now fs dir ttl = (Inr 0, fs)"
  "fs dir = None \<Longrightarrow> cleanup_expired now fs dir ttl = (Inr 0, fs)"
  by (simp_all add: cleanup_expired_datasets_def cleanup_expired_def dir_exists_def)

lemma expired_names_without:
  assumes "set (expired_names now ttl suf d) \<subseteq> X"
  shows "expired_names now ttl suf (without X d) = []"
proof -
  have "\<forall>e \<in> set d. ends_with suf (fst e) \<and> now - mtime (snd e) > real_of_int ttl \<longrightarrow> fst e \<in> X"
    using assms by (auto simp: expired_names_def)
  then show ?thesis
    by (auto simp: expired_names_def without_def filter_empty_conv)
qed

lemma without_empty: "without {} d = d"
  by (simp add: without_def)

lemma mem_expired_names:
  assumes "distinct (map fst d)"
  shows "n \<in> set (expired_names now ttl suf d) \<longleftrightarrow>
           ends_with suf n \<and> (\<exists>f. map_of d n = Some f \<and> now - mtime f > real_of_int ttl)"
proof -
  have e: "expired_in now ttl d n \<longleftrightarrow> (\<exists>f. map_of d n = Some f \<and> now - mtime f > real_of_int ttl)"
    by (simp add: expired_in_def split: option.splits)
  have "expired_in now ttl d n \<Longrightarrow> n \<in> fst ` set d"
    using map_of_eq_None_iff [of d n] by (auto simp: expired_in_def split: option.splits)
  then have "n \<in> set (filter (expired_in now ttl d) (filter (ends_with suf) (map fst d)))
       \<longleftrightarrow> ends_with suf n \<and> expired_in now ttl d n"
    by auto
  then show ?thesis
    unfolding filter_expired_names [OF assms] e .
qed

lemma distinct_expired_names:
  assumes "distinct (map fst d)"
  shows "distinct (expired_names now ttl suf d)"
proof -
  have "distinct (filter (expired_in now ttl d) (filter (ends_with suf) (map fst d)))"
    using assms by simp
  then show ?thesis unfolding filter_expired_names [OF assms] .
qed

lemma lookup_swept_datasets:
  "map_of (swept_datasets now ttl d) n =
     (if n \<in> set (expired_names now ttl DATASET_FILE_SUFFIX d)
         \<or> (\<exists>p \<in> set (expired_names now ttl DATASET_FILE_SUFFIX d). n = meta_path (stem p))
      then None else map_of d n)"
  by (auto simp: swept_datasets_def map_of_without)

lemma lookup_swept_results:
  "map_of (swept_results now ttl d) n =
     (if n \<in> set (expired_names now ttl RESULT_FILE_SUFFIX d) then None else map_of d n)"
  by (simp add: swept_results_def map_of_without)

lemma glob_set:
  "fs dir = Some d \<Longrightarrow> set (glob_suffix fs dir suf) = {n \<in> fst ` set d. ends_with suf n}"
  by (auto simp: glob_suffix_def)

lemma swept_datasets_distinct:
  "distinct (map fst d) \<Longrightarrow> distinct (map fst (swept_datasets now ttl d))"
  by (simp add: swept_datasets_def distinct_without)

lemma swept_results_distinct:
  "distinct (map fst d) \<Longrightarrow> distinct (map fst (swept_results now ttl d))"
  by (simp add: swept_results_def distinct_without)

lemma swept_datasets_no_expired:
  "expired_names now ttl DATASET_FILE_SUFFIX (swept_datasets now ttl d) = []"
  unfolding swept_datasets_def by (rule expired_names_without) simp

lemma swept_results_no_expired:
  "expired_names now ttl RESULT_FILE_SUFFIX (swept_results now ttl d) = []"
  unfolding swept_results_def by (rule expired_names_without) simp

lemma swept_datasets_idem:
  "swept_datasets now ttl (swept_datasets now ttl d) = swept_datasets now ttl d"
  by (subst swept_datasets_def) (simp add: swept_datasets_no_expired without_empty)

lemma swept_results_idem:
  "swept_results now ttl (swept_results now ttl d) = swept_results now ttl d"
  by (subst swept_results_def) (simp add: swept_results_no_expired without_empty)

lemma dataset_sweep_facts:
  assumes d: "fs ddir = Some d" and dd: "distinct (map fst d)"
  shows "set (glob_suffix fs ddir DATASET_FILE_SUFFIX)
           = {n \<in> fst ` set d. ends_with DATASET_FILE_SUFFIX n}"
    and "cleanup_expired_datasets now fs ddir ttl
           = (Inr (length (expired_names now ttl DATASET_FILE_SUFFIX d)),
              fs(ddir \<mapsto> swept_datasets now ttl d))"
    and "distinct (expired_names now ttl DATASET_FILE_SUFFIX d)"
    and "\<forall>n. n \<in> set (expired_names now ttl DATASET_FILE_SUFFIX d) \<longleftrightarrow>
              ends_with DATASET_FILE_SUFFIX n
              \<and> (\<exists>f. map_of d n = Some f \<and> now - mtime f > real_of_int ttl)"
    and "\<forall>n. lookup_file (snd (cleanup_expired_datasets now fs ddir ttl)) ddir n
            = (if n \<in> set (expired_names now ttl DATASET_FILE_SUFFIX d)
                  \<or> (\<exists>p \<in> set (expired_names now ttl DATASET_FILE_SUFFIX d).
                        n = meta_path (stem p))
               then None else lookup_file fs ddir n)"
    and "\<forall>n. ends_with DATASET_FILE_SUFFIX n
              \<and> n \<notin> set (expired_names now ttl DATASET_FILE_SUFFIX d) \<longrightarrow>
            lookup_file (snd (cleanup_expired_datasets now fs ddir ttl)) ddir n
              = lookup_file fs ddir n"
    and "\<forall>i. i \<noteq> [] \<and> dataset_path i \<in> set (expired_names now ttl DATASET_FILE_SUFFIX d) \<longrightarrow>
            \<not> path_exists (snd (cleanup_expired_datasets now fs ddir ttl)) ddir (dataset_path i)
            \<and> \<not> path_exists (snd (cleanup_expired_datasets now fs ddir ttl)) ddir (meta_path i)"
proof -
  show "set (glob_suffix fs ddir DATASET_FILE_SUFFIX)
           = {n \<in> fst ` set d. ends_with DATASET_FILE_SUFFIX n}"
    using d by (rule glob_set)
  show c: "cleanup_expired_datasets now fs ddir ttl
           = (Inr (length (expired_names now ttl DATASET_FILE_SUFFIX d)),
              fs(ddir \<mapsto> swept_datasets now ttl d))"
    using d dd by (rule cleanup_expired_datasets_effect)
  show "distinct (expired_names now ttl DATASET_FILE_SUFFIX d)"
    using dd by (rule distinct_expired_names)
  show m: "\<forall>n. n \<in> set (expired_names now ttl DATASET_FILE_SUFFIX d) \<longleftrightarrow>
              ends_with DATASET_FILE_SUFFIX n
              \<and> (\<exists>f. map_of d n = Some f \<and> now - mtime f > real_of_int ttl)"
    using mem_expired_names [OF dd] by blast
  have l: "lookup_file fs ddir n = map_of d n" for n
    using d by (simp add: lookup_file_def)
  show a: "\<forall>n. lookup_file (snd (cleanup_expired_datasets now fs ddir ttl)) ddir n
            = (if n \<in> set (expired_names now ttl DATASET_FILE_SUFFIX d)
                  \<or> (\<exists>p \<in> set (expired_names now ttl DATASET_FILE_SUFFIX d).
                        n = meta_path (stem p))
               then None else lookup_file fs ddir n)"
    unfolding c l by (simp add: lookup_file_upd lookup_swept_datasets)
  show "\<forall>n. ends_with DATASET_FILE_SUFFIX n
              \<and> n \<notin> set (expired_names now ttl DATASET_FILE_SUFFIX d) \<longrightarrow>
            lookup_file (snd (cleanup_expired_datasets now fs ddir ttl)) ddir n
              = lookup_file fs ddir n"
    using a meta_not_payload by auto
  show "\<forall>i. i \<noteq> [] \<and> dataset_path i \<in> set (expired_names now ttl DATASET_FILE_SUFFIX d) \<longrightarrow>
            \<not> path_exists (snd (cleanup_expired_datasets now fs ddir ttl)) ddir (dataset_path i)
            \<and> \<not> path_exists (snd (cleanup_expired_datasets now fs ddir ttl)) ddir (meta_path i)"
  proof (intro allI impI)
    fix i assume h: "i \<noteq> [] \<and> dataset_path i \<in> set (expired_names now ttl DATASET_FILE_SUFFIX d)"
    then have s: "meta_path i = meta_path (stem (dataset_path i))"
      by (simp add: stem_dataset_path)
    have 1: "lookup_file (snd (cleanup_expired_datasets now fs ddir ttl)) ddir (dataset_path i) = None"
      using a h by simp
    have 2: "lookup_file (snd (cleanup_expired_datasets now fs ddir ttl)) ddir (meta_path i) = None"
      using a h s by auto
    show "\<not> path_exists (snd (cleanup_expired_datasets now fs ddir ttl)) ddir (dataset_path i)
            \<and> \<not> path_exists (snd (cleanup_expired_datasets now fs ddir ttl)) ddir (meta_path i)"
      using 1 2 by (simp add: path_exists_def)
  qed
qed

lemma result_sweep_facts:
  assumes r: "gs rdir = Some r" and dr: "distinct (map fst r)"
  shows "set (glob_suffix gs rdir RESULT_FILE_SUFFIX)
           = {n \<in> fst ` set r. ends_with RESULT_FILE_SUFFIX n}"
    and "cleanup_expired now gs rdir ttl
           = (Inr (length (expired_names now ttl RESULT_FILE_SUFFIX r)),
              gs(rdir \<mapsto> swept_results now ttl r))"
    and "distinct (expired_names now ttl RESULT_FILE_SUFFIX r)"
    and "\<forall>n. n \<in> set (expired_names now ttl RESULT_FILE_SUFFIX r) \<longleftrightarrow>
              ends_with RESULT_FILE_SUFFIX n
              \<and> (\<exists>f. map_of r n = Some f \<and> now - mtime f > real_of_int ttl)"
    and "\<forall>n. lookup_file (snd (cleanup_expired now gs rdir ttl)) rdir n
            = (if n \<in> set (expired_names now ttl RESULT_FILE_SUFFIX r)
               then None else lookup_file gs rdir n)"
proof -
  show "set (glob_suffix gs rdir RESULT_FILE_SUFFIX)
           = {n \<in> fst ` set r. ends_with RESULT_FILE_SUFFIX n}"
    using r by (rule glob_set)
  show c: "cleanup_expired now gs rdir ttl
           = (Inr (length (expired_names now ttl RESULT_FILE_SUFFIX r)),
              gs(rdir \<mapsto> swept_results now ttl r))"
    using r dr by (rule cleanup_expired_effect)
  show "distinct (expired_names now ttl RESULT_FILE_SUFFIX r)"
    using dr by (rule distinct_expired_names)
  show "\<forall>n. n \<in> set (expired_names now ttl RESULT_FILE_SUFFIX r) \<longleftrightarrow>
              ends_with RESULT_FILE_SUFFIX n
              \<and> (\<exists>f. map_of r n = Some f \<and> now - mtime f > real_of_int ttl)"
    using mem_expired_names [OF dr] by blast
  have l: "lookup_file gs rdir n = map_of r n" for n
    using r by (simp add: lookup_file_def)
  show "\<forall>n. lookup_file (snd (cleanup_expired now gs rdir ttl)) rdir n
            = (if n \<in> set (expired_names now ttl RESULT_FILE_SUFFIX r)
               then None else lookup_file gs rdir n)"
    unfolding c l by (simp add: lookup_file_upd lookup_swept_results)
qed


section \<open>The postcondition of a sweep\<close>

text \<open>
  Claim C4, for each store on its own. Take a storage directory that exists and holds
  no name twice. The sweep lists exactly the names of the directory that end with the
  payload suffix; files of other directories, those below the storage directory among
  them, are neither listed nor changed. The expired names are the listed names whose
  file is older than the time to live at the time of the sweep, each counted once. The
  sweep returns their number and leaves the file system as it was but for the storage
  directory, from which it has removed the expired payload files and, in the dataset
  store, the metadata file named after the stem of each of them: for a payload file
  \<^verbatim>\<open><id>.pkl\<close> with a non-empty identifier, the file \<^verbatim>\<open><id>.json\<close>. Every other file
  of the directory is as it was; a payload file that is not expired in particular.
  A storage directory that does not exist is left absent and the sweep returns 0.
\<close>

theorem sweep_postcondition:
  "(fs ddir = Some d \<and> distinct (map fst d) \<longrightarrow>
      set (glob_suffix fs ddir DATASET_FILE_SUFFIX)
        = {n \<in> fst ` set d. ends_with DATASET_FILE_SUFFIX n}
    \<and> cleanup_expired_datasets now fs ddir ttl_seconds
        = (Inr (length (expired_names now ttl_seconds DATASET_FILE_SUFFIX d)),
           fs(ddir \<mapsto> swept_datasets now ttl_seconds d))
    \<and> distinct (expired_names now ttl_seconds DATASET_FILE_SUFFIX d)
    \<and> (\<forall>n. n \<in> set (expired_names now ttl_seconds DATASET_FILE_SUFFIX d) \<longleftrightarrow>
            ends_with DATASET_FILE_SUFFIX n
            \<and> (\<exists>f. map_of d n = Some f \<and> now - mtime f > real_of_int ttl_seconds))
    \<and> (\<forall>n. lookup_file (snd (cleanup_expired_datasets now fs ddir ttl_seconds)) ddir n
            = (if n \<in> set (expired_names now ttl_seconds DATASET_FILE_SUFFIX d)
                  \<or> (\<exists>p \<in> set (expired_names now ttl_seconds DATASET_FILE_SUFFIX d).
                        n = meta_path (stem p))
               then None else lookup_file fs ddir n))
    \<and> (\<forall>n. ends_with DATASET_FILE_SUFFIX n
            \<and> n \<notin> set (expired_names now ttl_seconds DATASET_FILE_SUFFIX d) \<longrightarrow>
            lookup_file (snd (cleanup_expired_datasets now fs ddir ttl_seconds)) ddir n
              = lookup_file fs ddir n)
    \<and> (\<forall>i. i \<noteq> [] \<and> dataset_path i \<in> set (expired_names now ttl_seconds DATASET_FILE_SUFFIX d)
            \<longrightarrow>
            \<not> path_exists (snd (cleanup_expired_datasets now fs ddir ttl_seconds)) ddir
                (dataset_path i)
            \<and> \<not> path_exists (snd (cleanup_expired_datasets now fs ddir ttl_seconds)) ddir
                (meta_path i)))
   \<and> (gs rdir = Some r \<and> distinct (map fst r) \<longrightarrow>
      set (glob_suffix gs rdir RESULT_FILE_SUFFIX)
        = {n \<in> fst ` set r. ends_with RESULT_FILE_SUFFIX n}
    \<and> cleanup_expired now gs rdir ttl_seconds
        = (Inr (length (expired_names now ttl_seconds RESULT_FILE_SUFFIX r)),
           gs(rdir \<mapsto> swept_results now ttl_seconds r))
    \<and> distinct (expired_names now ttl_seconds RESULT_FILE_SUFFIX r)
    \<and> (\<forall>n. n \<in> set (expired_names now ttl_seconds RESULT_FILE_SUFFIX r) \<longleftrightarrow>
            ends_with RESULT_FILE_SUFFIX n
            \<and> (\<exists>f. map_of r n = Some f \<and> now - mtime f > real_of_int ttl_seconds))
    \<and> (\<forall>n. lookup_file (snd (cleanup_expired now gs rdir ttl_seconds)) rdir n
            = (if n \<in> set (expired_names now ttl_seconds RESULT_FILE_SUFFIX r)
               then None else lookup_file gs rdir n)))
   \<and> (fs ddir = None \<longrightarrow> cleanup_expired_datasets now fs ddir ttl_seconds = (Inr 0, fs))
   \<and> (gs rdir = None \<longrightarrow> cleanup_expired now gs rdir ttl_seconds = (Inr 0, gs))"
proof (intro conjI impI)
  assume h: "fs ddir = Some d \<and> distinct (map fst d)"
  then have d: "fs ddir = Some d" and dd: "distinct (map fst d)" by simp_all
  note f = dataset_sweep_facts [where fs = fs and ddir = ddir, OF d dd]
  show "set (glob_suffix fs ddir DATASET_FILE_SUFFIX)
        = {n \<in> fst ` set d. ends_with DATASET_FILE_SUFFIX n}"
    by (rule f(1))
  show "cleanup_expired_datasets now fs ddir ttl_seconds
        = (Inr (length (expired_names now ttl_seconds DATASET_FILE_SUFFIX d)),
           fs(ddir \<mapsto> swept_datasets now ttl_seconds d))"
    by (rule f(2))
  show "distinct (expired_names now ttl_seconds DATASET_FILE_SUFFIX d)"
    by (rule f(3))
  show "\<forall>n. n \<in> set (expired_names now ttl_seconds DATASET_FILE_SUFFIX d) \<longleftrightarrow>
            ends_with DATASET_FILE_SUFFIX n
            \<and> (\<exists>f. map_of d n = Some f \<and> now - mtime f > real_of_int ttl_seconds)"
    by (rule f(4))
  show "\<forall>n. lookup_file (snd (cleanup_expired_datasets now fs ddir ttl_seconds)) ddir n
            = (if n \<in> set (expired_names now ttl_seconds DATASET_FILE_SUFFIX d)
                  \<or> (\<exists>p \<in> set (expired_names now ttl_seconds DATASET_FILE_SUFFIX d).
                        n = meta_path (stem p))
               then None else lookup_file fs ddir n)"
    by (rule f(5))
  show "\<forall>n. ends_with DATASET_FILE_SUFFIX n
            \<and> n \<notin> set (expired_names now ttl_seconds DATASET_FILE_SUFFIX d) \<longrightarrow>
            lookup_file (snd (cleanup_expired_datasets now fs ddir ttl_seconds)) ddir n
              = lookup_file fs ddir n"
    by (rule f(6))
  show "\<forall>i. i \<noteq> [] \<and> dataset_path i \<in> set (expired_names now ttl_seconds DATASET_FILE_SUFFIX d)
            \<longrightarrow>
            \<not> path_exists (snd (cleanup_expired_datasets now fs ddir ttl_seconds)) ddir
                (dataset_path i)
            \<and> \<not> path_exists (snd (cleanup_expired_datasets now fs ddir ttl_seconds)) ddir
                (meta_path i)"
    by (rule f(7))
next
  assume h: "gs rdir = Some r \<and> distinct (map fst r)"
  then have r: "gs rdir = Some r" and dr: "distinct (map fst r)" by simp_all
  note g = result_sweep_facts [where gs = gs and rdir = rdir, OF r dr]
  show "set (glob_suffix gs rdir RESULT_FILE_SUFFIX)
        = {n \<in> fst ` set r. ends_with RESULT_FILE_SUFFIX n}"
    by (rule g(1))
  show "cleanup_expired now gs rdir ttl_seconds
        = (Inr (length (expired_names now ttl_seconds RESULT_FILE_SUFFIX r)),
           gs(rdir \<mapsto> swept_results now ttl_seconds r))"
    by (rule g(2))
  show "distinct (expired_names now ttl_seconds RESULT_FILE_SUFFIX r)"
    by (rule g(3))
  show "\<forall>n. n \<in> set (expired_names now ttl_seconds RESULT_FILE_SUFFIX r) \<longleftrightarrow>
            ends_with RESULT_FILE_SUFFIX n
            \<and> (\<exists>f. map_of r n = Some f \<and> now - mtime f > real_of_int ttl_seconds)"
    by (rule g(4))
  show "\<forall>n. lookup_file (snd (cleanup_expired now gs rdir ttl_seconds)) rdir n
            = (if n \<in> set (expired_names now ttl_seconds RESULT_FILE_SUFFIX r)
               then None else lookup_file gs rdir n)"
    by (rule g(5))
next
  assume "fs ddir = None"
  then show "cleanup_expired_datasets now fs ddir ttl_seconds = (Inr 0, fs)"
    by (rule cleanup_absent)
next
  assume "gs rdir = None"
  then show "cleanup_expired now gs rdir ttl_seconds = (Inr 0, gs)"
    by (rule cleanup_absent)
qed

text \<open>
  A sweep at time 5000 with a time to live of 3600. In the dataset directory the
  payload \<^verbatim>\<open>a.pkl\<close> (written at 1000) is expired and goes with \<^verbatim>\<open>a.json\<close>; \<^verbatim>\<open>b.pkl\<close>
  (written at 4000) stays, and so do its older metadata file and the metadata file
  \<^verbatim>\<open>c.json\<close>, which has no payload. In the result directory \<^verbatim>\<open>a.csv\<close> goes; \<^verbatim>\<open>b.csv\<close>
  and the old file \<^verbatim>\<open>notes.txt\<close> stay.
\<close>

theorem sweep_postcondition_witness:
  "example_sweep_fs ''d'' =
      Some [(''a.pkl'', \<lparr>content = ''PKLa'', mtime = 1000\<rparr>),
            (''a.json'', \<lparr>content = ''{source_filename:a.csv}'', mtime = 1000\<rparr>),
            (''b.pkl'', \<lparr>content = ''PKLb'', mtime = 4000\<rparr>),
            (''b.json'', \<lparr>content = ''{source_filename:b.csv}'', mtime = 1000\<rparr>),
            (''c.json'', \<lparr>content = ''{source_filename:c.csv}'', mtime = 0\<rparr>)]
   \<and> distinct [''a.pkl'', ''a.json'', ''b.pkl'', ''b.json'', ''c.json'']
   \<and> cleanup_expired_datasets 5000 example_sweep_fs ''d'' 3600
       = (Inr 1, example_sweep_fs(''d'' \<mapsto>
            [(''b.pkl'', \<lparr>content = ''PKLb'', mtime = 4000\<rparr>),
             (''b.json'', \<lparr>content = ''{source_filename:b.csv}'', mtime = 1000\<rparr>),
             (''c.json'', \<lparr>content = ''{source_filename:c.csv}'', mtime = 0\<rparr>)]))
   \<and> example_sweep_fs ''r'' =
      Some [(''a.csv'', \<lparr>content = ''x,y'', mtime = 1000\<rparr>),
            (''b.csv'', \<lparr>content = ''u,v'', mtime = 4000\<rparr>),
            (''notes.txt'', \<lparr>content = ''n'', mtime = 0\<rparr>)]
   \<and> distinct [''a.csv'', ''b.csv'', ''notes.txt'']
   \<and> cleanup_expired 5000 example_sweep_fs ''r'' 3600
       = (Inr 1, example_sweep_fs(''r'' \<mapsto>
            [(''b.csv'', \<lparr>content = ''u,v'', mtime = 4000\<rparr>),
             (''notes.txt'', \<lparr>content = ''n'', mtime = 0\<rparr>)]))"
proof -
  let ?d = "[(''a.pkl'', \<lparr>content = ''PKLa'', mtime = 1000\<rparr>),
            (''a.json'', \<lparr>content = ''{source_filename:a.csv}'', mtime = 1000\<rparr>),
            (''b.pkl'', \<lparr>content = ''PKLb'', mtime = 4000\<rparr>),
            (''b.json'', \<lparr>content = ''{source_filename:b.csv}'', mtime = 1000\<rparr>),
            (''c.json'', \<lparr>content = ''{source_filename:c.csv}'', mtime = 0\<rparr>)]"
  let ?r = "[(''a.csv'', \<lparr>content = ''x,y'', mtime = 1000\<rparr>),
            (''b.csv'', \<lparr>content = ''u,v'', mtime = 4000\<rparr>),
            (''notes.txt'', \<lparr>content = ''n'', mtime = 0\<rparr>)]"
  have d: "example_sweep_fs ''d'' = Some ?d" and r: "example_sweep_fs ''r'' = Some ?r"
    by (simp_all add: example_sweep_fs_def)
  have dd: "distinct (map fst ?d)" and dr: "distinct (map fst ?r)"
    by simp_all
  have ed: "expired_names 5000 3600 DATASET_FILE_SUFFIX ?d = [''a.pkl'']"
    by (simp add: expired_names_def ends_with_def DATASET_FILE_SUFFIX_def)
  have er: "expired_names 5000 3600 RESULT_FILE_SUFFIX ?r = [''a.csv'']"
    by (simp add: expired_names_def ends_with_def RESULT_FILE_SUFFIX_def)
  have st: "stem ''a.pkl'' = ''a''"
    using stem_dataset_path [of "''a''"] by (simp add: dataset_path_def DATASET_FILE_SUFFIX_def)
  have sd: "swept_datasets 5000 3600 ?d
       = [(''b.pkl'', \<lparr>content = ''PKLb'', mtime = 4000\<rparr>),
          (''b.json'', \<lparr>content = ''{source_filename:b.csv}'', mtime = 1000\<rparr>),
          (''c.json'', \<lparr>content = ''{source_filename:c.csv}'', mtime = 0\<rparr>)]"
    unfolding swept_datasets_def ed
    by (simp add: st without_def meta_path_def DATASET_META_SUFFIX_def)
  have sr: "swept_results 5000 3600 ?r
       = [(''b.csv'', \<lparr>content = ''u,v'', mtime = 4000\<rparr>),
          (''notes.txt'', \<lparr>content = ''n'', mtime = 0\<rparr>)]"
    unfolding swept_results_def er by (simp add: without_def)
  show ?thesis
    using sweep_postcondition [where fs = example_sweep_fs and gs = example_sweep_fs
        and ddir = "''d''" and rdir = "''r''" and d = ?d and r = ?r and now = 5000
        and ttl_seconds = 3600] d r dd dr
    unfolding ed er sd sr by simp
qed

section \<open>A second sweep\<close>

text \<open>
  Claim C5, for each store on its own. A sweep of a storage directory that holds no
  name twice succeeds, and a second sweep at the same time, with the same time to live,
  of the file system the first one left, returns 0 and leaves that file system as it
  is.
\<close>

theorem sweep_idempotent:
  "(dir_distinct fs ddir \<longrightarrow>
      (\<exists>n. fst (cleanup_expired_datasets now fs ddir ttl_seconds) = Inr n)
    \<and> cleanup_expired_datasets now (snd (cleanup_expired_datasets now fs ddir ttl_seconds)) ddir
          ttl_seconds
        = (Inr 0, snd (cleanup_expired_datasets now fs ddir ttl_seconds)))
   \<and> (dir_distinct gs rdir \<longrightarrow>
      (\<exists>n. fst (cleanup_expired now gs rdir ttl_seconds) = Inr n)
    \<and> cleanup_expired now (snd (cleanup_expired now gs rdir ttl_seconds)) rdir ttl_seconds
        = (Inr 0, snd (cleanup_expired now gs rdir ttl_seconds)))"
proof (intro conjI impI)
  assume a: "dir_distinct fs ddir"
  show "\<exists>n. fst (cleanup_expired_datasets now fs ddir ttl_seconds) = Inr n"
  proof (cases "fs ddir")
    case None
    then show ?thesis by (simp add: cleanup_absent)
  next
    case (Some d)
    then have dd: "distinct (map fst d)" using a by (simp add: dir_distinct_def)
    show ?thesis
      by (simp add: cleanup_expired_datasets_effect [where fs = fs and dir = ddir, OF Some dd])
  qed
  show "cleanup_expired_datasets now (snd (cleanup_expired_datasets now fs ddir ttl_seconds)) ddir
          ttl_seconds
        = (Inr 0, snd (cleanup_expired_datasets now fs ddir ttl_seconds))"
  proof (cases "fs ddir")
    case None
    then show ?thesis by (simp add: cleanup_absent)
  next
    case (Some d)
    then have dd: "distinct (map fst d)" using a by (simp add: dir_distinct_def)
    let ?fs = "fs(ddir \<mapsto> swept_datasets now ttl_seconds d)"
    have s: "?fs ddir = Some (swept_datasets now ttl_seconds d)" by simp
    show ?thesis
      using cleanup_expired_datasets_effect [where fs = ?fs and dir = ddir, OF s
          swept_datasets_distinct [OF dd], of now ttl_seconds]
      by (simp add: cleanup_expired_datasets_effect [where fs = fs and dir = ddir, OF Some dd]
          swept_datasets_no_expired swept_datasets_idem)
  qed
next
  assume a: "dir_distinct gs rdir"
  show "\<exists>n. fst (cleanup_expired now gs rdir ttl_seconds) = Inr n"
  proof (cases "gs rdir")
    case None
    then show ?thesis by (simp add: cleanup_absent)
  next
    case (Some d)
    then have dd: "distinct (map fst d)" using a by (simp add: dir_distinct_def)
    show ?thesis
      by (simp add: cleanup_expired_effect [where fs = gs and dir = rdir, OF Some dd])
  qed
  show "cleanup_expired now (snd (cleanup_expired now gs rdir ttl_seconds)) rdir ttl_seconds
        = (Inr 0, snd (cleanup_expired now gs rdir ttl_seconds))"
  proof (cases "gs rdir")
    case None
    then show ?thesis by (simp add: cleanup_absent)
  next
    case (Some d)
    then have dd: "distinct (map fst d)" using a by (simp add: dir_distinct_def)
    let ?fs = "gs(rdir \<mapsto> swept_results now ttl_seconds d)"
    have s: "?fs rdir = Some (swept_results now ttl_seconds d)" by simp
    show ?thesis
      using cleanup_expired_effect [where fs = ?fs and dir = rdir, OF s
          swept_results_distinct [OF dd], of now ttl_seconds]
      by (simp add: cleanup_expired_effect [where fs = gs and dir = rdir, OF Some dd]
          swept_results_no_expired swept_results_idem)
  qed
qed

text \<open>
  The sweep at time 5000 of the example removes one payload from each directory; the
  sweep after it removes nothing.
\<close>

theorem sweep_idempotent_witness:
  "dir_distinct example_sweep_fs ''d'' \<and> dir_distinct example_sweep_fs ''r''
   \<and> cleanup_expired_datasets 5000
        (snd (cleanup_expired_datasets 5000 example_sweep_fs ''d'' 3600)) ''d'' 3600
       = (Inr 0, snd (cleanup_expired_datasets 5000 example_sweep_fs ''d'' 3600))
   \<and> cleanup_expired 5000 (snd (cleanup_expired 5000 example_sweep_fs ''r'' 3600)) ''r'' 3600
       = (Inr 0, snd (cleanup_expired 5000 example_sweep_fs ''r'' 3600))"
proof -
  have d: "dir_distinct example_sweep_fs ''d''" and r: "dir_distinct example_sweep_fs ''r''"
    by (simp_all add: dir_distinct_def example_sweep_fs_def)
  show ?thesis
    using sweep_idempotent [where fs = example_sweep_fs and gs = example_sweep_fs
        and ddir = "''d''" and rdir = "''r''" and now = 5000 and ttl_seconds = 3600] d r
    by simp
qed

lemma without_insert_absent:
  "map_of d k = None \<Longrightarrow> without (insert k X) d = without X d"
proof -
  assume "map_of d k = None"
  then have "k \<notin> fst ` set d" by (simp add: map_of_eq_None_iff)
  then show ?thesis
    unfolding without_def by (intro filter_cong) auto
qed

lemma unlink_missing_ok:
  "\<exists>fs'. safe_unlink fs dir name = Inr fs' \<and> unlink fs dir name True = Inr fs'
         \<and> \<not> path_exists fs' dir name"
  by (cases "fs dir")
     (auto simp: safe_unlink_def unlink_def path_exists_def lookup_file_def delete_without
        map_of_without)

lemma unlink_absent:
  assumes "\<not> path_exists fs dir name"
  shows "safe_unlink fs dir name = Inr fs" and "unlink fs dir name True = Inr fs"
    and "unlink fs dir name False = Inl FileNotFoundError"
  using assms
  by (auto simp: safe_unlink_def unlink_def path_exists_def lookup_file_def split: option.splits)

lemma stem_payload_cases2:
  assumes "ends_with DATASET_FILE_SUFFIX p"
  shows "p = ''.pkl'' \<or> p = dataset_path (stem p)"
proof -
  obtain x where x: "p = x @ ''.pkl''"
    using assms by (auto simp: ends_with_iff DATASET_FILE_SUFFIX_def)
  show ?thesis
  proof (cases "x = []")
    case True
    then show ?thesis using x by simp
  next
    case False
    then show ?thesis
      using x stem_dataset_path [of x] by (simp add: dataset_path_def DATASET_FILE_SUFFIX_def)
  qed
qed

lemma meta_path_inject: "meta_path x = meta_path y \<longleftrightarrow> x = y"
  by (simp add: meta_path_def)

section \<open>Deleting what is not there\<close>

text \<open>
  Claim C8. Every deletion of the two stores is an unlink with \<^verbatim>\<open>missing_ok=True\<close>: it
  returns normally whatever the state of the file system, the file is absent when it
  returns, and when the file was absent before (never written, or removed since the
  caller last looked) the file system is left as it is; the same unlink without
  \<^verbatim>\<open>missing_ok\<close> would raise. A load of an expired dataset removes the payload and the
  metadata file in one go and reports the expiry, and when the metadata file is absent
  it does the same, the payload being the only file removed. A sweep of a directory
  that holds an expired payload without its metadata file succeeds as well, and leaves
  neither file.
\<close>

theorem deletion_tolerance:
  "(\<exists>fs'. safe_unlink fs dir name = Inr fs' \<and> unlink fs dir name True = Inr fs'
          \<and> \<not> path_exists fs' dir name)
   \<and> (\<not> path_exists fs dir name \<longrightarrow>
        safe_unlink fs dir name = Inr fs \<and> unlink fs dir name True = Inr fs
        \<and> unlink fs dir name False = Inl FileNotFoundError)
   \<and> (id_pattern_match i \<and> fs ddir = Some d \<and> map_of d (dataset_path i) = Some f
        \<and> now - mtime f > real_of_int ttl_seconds \<longrightarrow>
        load_dataset cd now fs i ddir ttl_seconds
          = (Inl (DatasetNotFoundError ''Uploaded dataset has expired.''),
             fs(ddir \<mapsto> without {dataset_path i, meta_path i} d))
        \<and> (map_of d (meta_path i) = None \<longrightarrow>
             load_dataset cd now fs i ddir ttl_seconds
               = (Inl (DatasetNotFoundError ''Uploaded dataset has expired.''),
                  fs(ddir \<mapsto> without {dataset_path i} d))))
   \<and> (j \<noteq> [] \<and> gs sdir = Some e \<and> distinct (map fst e) \<and> map_of e (dataset_path j) = Some g
        \<and> map_of e (meta_path j) = None \<and> now - mtime g > real_of_int ttl_seconds \<longrightarrow>
        (\<exists>n. fst (cleanup_expired_datasets now gs sdir ttl_seconds) = Inr n)
        \<and> \<not> path_exists (snd (cleanup_expired_datasets now gs sdir ttl_seconds)) sdir
              (dataset_path j)
        \<and> \<not> path_exists (snd (cleanup_expired_datasets now gs sdir ttl_seconds)) sdir
              (meta_path j))"
proof (intro conjI impI)
  show "\<exists>fs'. safe_unlink fs dir name = Inr fs' \<and> unlink fs dir name True = Inr fs'
          \<and> \<not> path_exists fs' dir name"
    by (rule unlink_missing_ok)
next
  assume a: "\<not> path_exists fs dir name"
  show "safe_unlink fs dir name = Inr fs" using a by (rule unlink_absent)
  show "unlink fs dir name True = Inr fs" using a by (rule unlink_absent)
  show "unlink fs dir name False = Inl FileNotFoundError" using a by (rule unlink_absent)
next
  assume h: "id_pattern_match i \<and> fs ddir = Some d \<and> map_of d (dataset_path i) = Some f
        \<and> now - mtime f > real_of_int ttl_seconds"
  then have m: "id_pattern_match i" and d: "fs ddir = Some d"
    and p: "map_of d (dataset_path i) = Some f" and o: "now - mtime f > real_of_int ttl_seconds"
    by simp_all
  show l: "load_dataset cd now fs i ddir ttl_seconds
          = (Inl (DatasetNotFoundError ''Uploaded dataset has expired.''),
             fs(ddir \<mapsto> without {dataset_path i, meta_path i} d))"
    using o by (simp add: load_dataset_present [where fs = fs and dir = ddir, OF m d p])
  assume n: "map_of d (meta_path i) = None"
  have "without {dataset_path i, meta_path i} d = without {dataset_path i} d"
    using without_insert_absent [OF n, of "{dataset_path i}"] by (simp add: insert_commute)
  then show "load_dataset cd now fs i ddir ttl_seconds
               = (Inl (DatasetNotFoundError ''Uploaded dataset has expired.''),
                  fs(ddir \<mapsto> without {dataset_path i} d))"
    using l by simp
next
  assume h: "j \<noteq> [] \<and> gs sdir = Some e \<and> distinct (map fst e) \<and> map_of e (dataset_path j) = Some g
        \<and> map_of e (meta_path j) = None \<and> now - mtime g > real_of_int ttl_seconds"
  then have j: "j \<noteq> []" and e: "gs sdir = Some e" and de: "distinct (map fst e)"
    and p: "map_of e (dataset_path j) = Some g" and o: "now - mtime g > real_of_int ttl_seconds"
    by simp_all
  note f = dataset_sweep_facts [where fs = gs and ddir = sdir, OF e de]
  have x: "dataset_path j \<in> set (expired_names now ttl_seconds DATASET_FILE_SUFFIX e)"
    using f(4) [of now ttl_seconds] p o by (simp add: dataset_path_def ends_with_append)
  show "\<exists>n. fst (cleanup_expired_datasets now gs sdir ttl_seconds) = Inr n"
    by (simp add: f(2))
  show "\<not> path_exists (snd (cleanup_expired_datasets now gs sdir ttl_seconds)) sdir
              (dataset_path j)"
    using f(7) [of now ttl_seconds] j x by blast
  show "\<not> path_exists (snd (cleanup_expired_datasets now gs sdir ttl_seconds)) sdir
              (meta_path j)"
    using f(7) [of now ttl_seconds] j x by blast
qed

text \<open>
  A payload written at 1000 whose metadata file is missing, with a time to live of
  3600: at 4601 the unlink of the metadata file changes nothing, the load reports the
  expiry and leaves the directory empty, and so does the sweep.
\<close>

theorem deletion_tolerance_witness:
  "\<not> path_exists example_lone_fs ''d'' (meta_path example_id)
   \<and> safe_unlink example_lone_fs ''d'' (meta_path example_id) = Inr example_lone_fs
   \<and> unlink example_lone_fs ''d'' (meta_path example_id) False = Inl FileNotFoundError
   \<and> id_pattern_match example_id \<and> example_id \<noteq> []
   \<and> (4601::real) - 1000 > real_of_int 3600
   \<and> load_dataset example_codecs 4601 example_lone_fs example_id ''d'' 3600
       = (Inl (DatasetNotFoundError ''Uploaded dataset has expired.''),
          example_lone_fs(''d'' \<mapsto> []))
   \<and> \<not> path_exists (snd (cleanup_expired_datasets 4601 example_lone_fs ''d'' 3600)) ''d''
         (dataset_path example_id)
   \<and> \<not> path_exists (snd (cleanup_expired_datasets 4601 example_lone_fs ''d'' 3600)) ''d''
         (meta_path example_id)"
proof -
  let ?f = "\<lparr>content = ''PKLa,b'', mtime = 1000\<rparr>"
  let ?d = "[(example_id @ ''.pkl'', ?f)]"
  have d: "example_lone_fs ''d'' = Some ?d"
    by (simp add: example_lone_fs_def)
  have p: "map_of ?d (dataset_path example_id) = Some ?f"
    by (simp add: dataset_path_def DATASET_FILE_SUFFIX_def)
  have q: "map_of ?d (meta_path example_id) = None"
    by (simp add: meta_path_def DATASET_META_SUFFIX_def)
  have a: "\<not> path_exists example_lone_fs ''d'' (meta_path example_id)"
    using d q by (simp add: path_exists_def lookup_file_def)
  have w: "without {dataset_path example_id} ?d = []"
    by (simp add: without_def dataset_path_def DATASET_FILE_SUFFIX_def)
  have w2: "without {dataset_path example_id, meta_path example_id} ?d = []"
    by (simp add: without_def dataset_path_def DATASET_FILE_SUFFIX_def)
  have n: "example_id \<noteq> []"
    by (simp add: example_id_def)
  show ?thesis
    using deletion_tolerance [where fs = example_lone_fs and dir = "''d''"
        and name = "meta_path example_id" and i = example_id and ddir = "''d''" and d = ?d
        and f = ?f and now = 4601 and ttl_seconds = 3600 and cd = example_codecs
        and j = example_id and gs = example_lone_fs and sdir = "''d''" and e = ?d and g = ?f]
      d p q a n example_id_match
    unfolding w w2 by simp
qed

section \<open>Metadata files without a payload\<close>

text \<open>
  Claim C10. Take a dataset directory that holds no name twice. A sweep removes the
  metadata file of an identifier only together with an expired payload file whose stem
  is that identifier. A metadata file whose payload file is absent is therefore still
  there after the sweep, whatever its age, the time of the sweep and the time to live,
  and the payload is still absent and the directory still holds no name twice, so that
  the same holds of every sweep that follows. This is stated for every identifier
  other than the four characters \<^verbatim>\<open>.pkl\<close>, and so for every well-formed one: the stem
  of a file named \<^verbatim>\<open>.pkl\<close> is \<^verbatim>\<open>.pkl\<close>, and the sweep of such a file, once expired,
  removes \<^verbatim>\<open>.pkl.json\<close>. The sweep of the result store removes no metadata file either,
  even from a directory the two stores share.
\<close>

theorem orphan_metadata_survives:
  "(fs ddir = Some d \<and> distinct (map fst d) \<longrightarrow>
      (map_of d (meta_path i) = Some m
         \<and> lookup_file (snd (cleanup_expired_datasets now fs ddir ttl_seconds)) ddir (meta_path i)
             = None \<longrightarrow>
         (\<exists>p f. ends_with DATASET_FILE_SUFFIX p \<and> map_of d p = Some f
                \<and> now - mtime f > real_of_int ttl_seconds \<and> stem p = i))
    \<and> (i \<noteq> ''.pkl'' \<and> map_of d (meta_path i) = Some m \<and> map_of d (dataset_path i) = None \<longrightarrow>
         lookup_file (snd (cleanup_expired_datasets now fs ddir ttl_seconds)) ddir (meta_path i)
           = Some m
         \<and> lookup_file (snd (cleanup_expired_datasets now fs ddir ttl_seconds)) ddir
             (dataset_path i) = None)
    \<and> dir_distinct (snd (cleanup_expired_datasets now fs ddir ttl_seconds)) ddir)
   \<and> (gs rdir = Some r \<and> distinct (map fst r) \<and> map_of r (meta_path j) = Some k \<longrightarrow>
        lookup_file (snd (cleanup_expired now gs rdir ttl_seconds)) rdir (meta_path j) = Some k)"
proof (intro conjI impI)
  assume h: "fs ddir = Some d \<and> distinct (map fst d)"
  then have d: "fs ddir = Some d" and dd: "distinct (map fst d)" by simp_all
  note f = dataset_sweep_facts [where fs = fs and ddir = ddir, OF d dd]
  let ?E = "set (expired_names now ttl_seconds DATASET_FILE_SUFFIX d)"
  let ?after = "lookup_file (snd (cleanup_expired_datasets now fs ddir ttl_seconds)) ddir"
  have l: "lookup_file fs ddir n = map_of d n" for n
    using d by (simp add: lookup_file_def)
  have E: "n \<in> ?E \<longleftrightarrow> ends_with DATASET_FILE_SUFFIX n
            \<and> (\<exists>f. map_of d n = Some f \<and> now - mtime f > real_of_int ttl_seconds)" for n
    using f(4) [of now ttl_seconds] by blast
  have A: "?after n = (if n \<in> ?E \<or> (\<exists>p \<in> ?E. n = meta_path (stem p)) then None else map_of d n)"
    for n
    using f(5) [of now ttl_seconds] by (simp add: l)
  have notE: "meta_path i \<notin> ?E"
    using E [of "meta_path i"] meta_not_payload by blast
  show "dir_distinct (snd (cleanup_expired_datasets now fs ddir ttl_seconds)) ddir"
    by (simp add: f(2) dir_distinct_def swept_datasets_distinct [OF dd])
  {
    assume g: "map_of d (meta_path i) = Some m \<and> ?after (meta_path i) = None"
    then have "\<exists>p \<in> ?E. meta_path i = meta_path (stem p)"
      using A [of "meta_path i"] notE by (auto split: if_splits)
    then obtain p where p: "p \<in> ?E" and s: "stem p = i"
      by (auto simp: meta_path_inject)
    then show "\<exists>p f. ends_with DATASET_FILE_SUFFIX p \<and> map_of d p = Some f
                \<and> now - mtime f > real_of_int ttl_seconds \<and> stem p = i"
      using E [of p] by blast
  }
  {
    assume g: "i \<noteq> ''.pkl'' \<and> map_of d (meta_path i) = Some m \<and> map_of d (dataset_path i) = None"
    have no: "\<not> (\<exists>p \<in> ?E. meta_path i = meta_path (stem p))"
    proof
      assume "\<exists>p \<in> ?E. meta_path i = meta_path (stem p)"
      then obtain p where p: "p \<in> ?E" and s: "stem p = i"
        by (auto simp: meta_path_inject)
      from p obtain f' where e: "ends_with DATASET_FILE_SUFFIX p" and m': "map_of d p = Some f'"
        using E [of p] by blast
      from stem_payload_cases2 [OF e] show False
      proof
        assume "p = ''.pkl''"
        then show False using s g stem_bare_suffix by simp
      next
        assume "p = dataset_path (stem p)"
        then show False using s g m' by simp
      qed
    qed
    show "?after (meta_path i) = Some m"
      using A [of "meta_path i"] notE no g by simp
    show "?after (dataset_path i) = None"
      using A [of "dataset_path i"] g by simp
  }
next
  assume h: "gs rdir = Some r \<and> distinct (map fst r) \<and> map_of r (meta_path j) = Some k"
  then have r: "gs rdir = Some r" and dr: "distinct (map fst r)"
    and k: "map_of r (meta_path j) = Some k" by simp_all
  note g = result_sweep_facts [where gs = gs and rdir = rdir, OF r dr]
  have "meta_path j \<notin> set (expired_names now ttl_seconds RESULT_FILE_SUFFIX r)"
    using g(4) [of now ttl_seconds] meta_not_result by blast
  then show "lookup_file (snd (cleanup_expired now gs rdir ttl_seconds)) rdir (meta_path j) = Some k"
    using g(5) [of now ttl_seconds] r k by (simp add: lookup_file_def)
qed

text \<open>
  In the example directory the metadata file \<^verbatim>\<open>c.json\<close>, last written at time 0, has
  no payload \<^verbatim>\<open>c.pkl\<close>. The sweep at time 5000 with a time to live of 3600 leaves it.
\<close>

theorem orphan_metadata_survives_witness:
  "''c'' \<noteq> ''.pkl''
   \<and> lookup_file example_sweep_fs ''d'' (meta_path ''c'')
       = Some \<lparr>content = ''{source_filename:c.csv}'', mtime = 0\<rparr>
   \<and> lookup_file example_sweep_fs ''d'' (dataset_path ''c'') = None
   \<and> (5000::real) - 0 > real_of_int 3600
   \<and> lookup_file (snd (cleanup_expired_datasets 5000 example_sweep_fs ''d'' 3600)) ''d''
        (meta_path ''c'')
       = Some \<lparr>content = ''{source_filename:c.csv}'', mtime = 0\<rparr>
   \<and> lookup_file (snd (cleanup_expired 5000 example_sweep_fs ''d'' 3600)) ''d'' (meta_path ''c'')
       = Some \<lparr>content = ''{source_filename:c.csv}'', mtime = 0\<rparr>"
proof -
  let ?d = "[(''a.pkl'', \<lparr>content = ''PKLa'', mtime = 1000\<rparr>),
            (''a.json'', \<lparr>content = ''{source_filename:a.csv}'', mtime = 1000\<rparr>),
            (''b.pkl'', \<lparr>content = ''PKLb'', mtime = 4000\<rparr>),
            (''b.json'', \<lparr>content = ''{source_filename:b.csv}'', mtime = 1000\<rparr>),
            (''c.json'', \<lparr>content = ''{source_filename:c.csv}'', mtime = 0\<rparr>)]"
  let ?m = "\<lparr>content = ''{source_filename:c.csv}'', mtime = 0\<rparr>"
  have d: "example_sweep_fs ''d'' = Some ?d"
    by (simp add: example_sweep_fs_def)
  have dd: "distinct (map fst ?d)"
    by simp
  have p: "map_of ?d (meta_path ''c'') = Some ?m"
    by (simp add: meta_path_def DATASET_META_SUFFIX_def)
  have q: "map_of ?d (dataset_path ''c'') = None"
    by (simp add: dataset_path_def DATASET_FILE_SUFFIX_def)
  show ?thesis
    using orphan_metadata_survives [where fs = example_sweep_fs and ddir = "''d''" and d = ?d
        and i = "''c''" and m = ?m and now = 5000 and ttl_seconds = 3600
        and gs = example_sweep_fs and rdir = "''d''" and r = ?d and j = "''c''" and k = ?m]
      d dd p q
    by (simp add: lookup_file_def)
qed

lemma dir_distinct_mkdir: "dir_distinct (mkdir fs dir) x = dir_distinct fs x"
  by (auto simp: dir_distinct_def mkdir_def split: option.splits)

lemma cleanup_expired_ok:
  assumes "dir_distinct fs dir"
  shows "\<exists>n. cleanup_expired now fs dir ttl = (Inr n, sweep_dir (swept_results now ttl) fs dir)"
proof (cases "fs dir")
  case None
  then show ?thesis by (simp add: cleanup_absent sweep_dir_def)
next
  case (Some d)
  then have dd: "distinct (map fst d)" using assms by (simp add: dir_distinct_def)
  show ?thesis
    using Some
    by (simp add: cleanup_expired_effect [where fs = fs and dir = dir, OF Some dd] sweep_dir_def)
qed

lemma cleanup_expired_datasets_ok:
  assumes "dir_distinct fs dir"
  shows "\<exists>n. cleanup_expired_datasets now fs dir ttl
           = (Inr n, sweep_dir (swept_datasets now ttl) fs dir)"
proof (cases "fs dir")
  case None
  then show ?thesis by (simp add: cleanup_absent sweep_dir_def)
next
  case (Some d)
  then have dd: "distinct (map fst d)" using assms by (simp add: dir_distinct_def)
  show ?thesis
    using Some
    by (simp add: cleanup_expired_datasets_effect [where fs = fs and dir = dir, OF Some dd]
        sweep_dir_def)
qed

lemma dir_distinct_sweep_results:
  "dir_distinct fs x \<Longrightarrow> dir_distinct (sweep_dir (swept_results now ttl) fs dir) x"
  by (auto simp: dir_distinct_def sweep_dir_def swept_results_distinct split: option.splits)

lemma run_cleanups_effect:
  assumes "dir_distinct fs (RESULT_STORAGE_DIR c)" and "dir_distinct fs (DATASET_STORAGE_DIR c)"
  shows "run_cleanups now c fs =
           (None, snd (cleanup_expired_datasets now
                    (snd (cleanup_expired now fs (RESULT_STORAGE_DIR c) (RESULT_TTL_SECONDS c)))
                    (DATASET_STORAGE_DIR c) (RESULT_TTL_SECONDS c)))"
proof -
  let ?fs1 = "sweep_dir (swept_results now (RESULT_TTL_SECONDS c)) fs (RESULT_STORAGE_DIR c)"
  obtain n1 where 1: "cleanup_expired now fs (RESULT_STORAGE_DIR c) (RESULT_TTL_SECONDS c)
                      = (Inr n1, ?fs1)"
    using cleanup_expired_ok [OF assms(1)] by blast
  have "dir_distinct ?fs1 (DATASET_STORAGE_DIR c)"
    using assms(2) by (rule dir_distinct_sweep_results)
  then obtain n2 where 2: "cleanup_expired_datasets now ?fs1 (DATASET_STORAGE_DIR c)
        (RESULT_TTL_SECONDS c)
      = (Inr n2, sweep_dir (swept_datasets now (RESULT_TTL_SECONDS c)) ?fs1 (DATASET_STORAGE_DIR c))"
    using cleanup_expired_datasets_ok by blast
  show ?thesis
    by (simp add: run_cleanups_def 1 2)
qed

lemma before_request_closed:
  "\<not> gate_open a now \<Longrightarrow> before_request a now fs = (None, a, fs)"
  by (simp add: before_request_def)

lemma before_request_open:
  assumes "gate_open a now"
    and "dir_distinct fs (RESULT_STORAGE_DIR (cfg a))"
    and "dir_distinct fs (DATASET_STORAGE_DIR (cfg a))"
  shows "before_request a now fs =
           (None, a\<lparr>last_result_cleanup_at := now\<rparr>,
            snd (cleanup_expired_datasets now
                   (snd (cleanup_expired now fs (RESULT_STORAGE_DIR (cfg a))
                           (RESULT_TTL_SECONDS (cfg a))))
                   (DATASET_STORAGE_DIR (cfg a)) (RESULT_TTL_SECONDS (cfg a))))"
  using assms(1) by (simp add: before_request_def run_cleanups_effect [OF assms(2,3)])

lemma serve_spaced:
  assumes "\<forall>q \<in> set reqs. dir_distinct (snd q) (RESULT_STORAGE_DIR (cfg a))
                        \<and> dir_distinct (snd q) (DATASET_STORAGE_DIR (cfg a))"
  shows "spaced (real_of_int (RESULT_CLEANUP_INTERVAL_SECONDS (cfg a)))
           (last_result_cleanup_at a # serve a reqs)"
  using assms
proof (induction reqs arbitrary: a)
  case Nil
  then show ?case by simp
next
  case (Cons q reqs)
  obtain now fs where q: "q = (now, fs)" by (cases q)
  have R: "dir_distinct fs (RESULT_STORAGE_DIR (cfg a))"
    and D: "dir_distinct fs (DATASET_STORAGE_DIR (cfg a))"
    using Cons.prems q by simp_all
  show ?case
  proof (cases "gate_open a now")
    case False
    have "serve a (q # reqs) = serve a reqs"
      using False q by (simp add: before_request_closed)
    moreover have "spaced (real_of_int (RESULT_CLEANUP_INTERVAL_SECONDS (cfg a)))
           (last_result_cleanup_at a # serve a reqs)"
      using Cons.prems by (intro Cons.IH) simp
    ultimately show ?thesis by simp
  next
    case True
    let ?a = "a\<lparr>last_result_cleanup_at := now\<rparr>"
    have s: "serve a (q # reqs) = now # serve ?a reqs"
      using True q by (simp add: before_request_open [OF True R D])
    have "spaced (real_of_int (RESULT_CLEANUP_INTERVAL_SECONDS (cfg ?a)))
           (last_result_cleanup_at ?a # serve ?a reqs)"
      using Cons.prems by (intro Cons.IH) simp
    then have "spaced (real_of_int (RESULT_CLEANUP_INTERVAL_SECONDS (cfg a))) (now # serve ?a reqs)"
      by simp
    then show ?thesis
      using True unfolding s by (simp add: gate_open_def)
  qed
qed

section \<open>When the sweeps run\<close>

text \<open>
  Claim C9. Storage directories that hold no name twice are assumed wherever a sweep
  runs. The application factory creates the two directories where they are missing,
  sweeps the result store and then the dataset store, and returns the application; it
  does not record the time of this sweep: the recorded time of the last run starts at 0.
  The hook before a request compares the time of the request with the recorded time.
  When fewer than \<^verbatim>\<open>RESULT_CLEANUP_INTERVAL_SECONDS\<close> have passed it does nothing: the
  application and the file system are as they were. Otherwise it sweeps the result store
  and then the dataset store, both at that time and with the same time to live, and
  records the time of the request. Over any sequence of requests, therefore, the times
  at which the hook swept are spaced by at least the interval, the first of them from
  the time the application held at the start.
\<close>

theorem sweep_scheduling:
  "(dir_distinct boot_fs (RESULT_STORAGE_DIR c) \<and> dir_distinct boot_fs (DATASET_STORAGE_DIR c) \<longrightarrow>
      create_app c boot boot_fs
        = (Inr \<lparr>cfg = c, last_result_cleanup_at = 0\<rparr>,
           snd (cleanup_expired_datasets boot
                  (snd (cleanup_expired boot
                          (mkdir (mkdir boot_fs (RESULT_STORAGE_DIR c)) (DATASET_STORAGE_DIR c))
                          (RESULT_STORAGE_DIR c) (RESULT_TTL_SECONDS c)))
                  (DATASET_STORAGE_DIR c) (RESULT_TTL_SECONDS c))))
   \<and> (gate_open a now \<longleftrightarrow>
        now - last_result_cleanup_at a \<ge> real_of_int (RESULT_CLEANUP_INTERVAL_SECONDS (cfg a)))
   \<and> (\<not> gate_open a now \<longrightarrow> before_request a now fs = (None, a, fs))
   \<and> (gate_open a now \<and> dir_distinct fs (RESULT_STORAGE_DIR (cfg a))
        \<and> dir_distinct fs (DATASET_STORAGE_DIR (cfg a)) \<longrightarrow>
        before_request a now fs
          = (None, a\<lparr>last_result_cleanup_at := now\<rparr>,
             snd (cleanup_expired_datasets now
                    (snd (cleanup_expired now fs (RESULT_STORAGE_DIR (cfg a))
                            (RESULT_TTL_SECONDS (cfg a))))
                    (DATASET_STORAGE_DIR (cfg a)) (RESULT_TTL_SECONDS (cfg a)))))
   \<and> ((\<forall>q \<in> set reqs. dir_distinct (snd q) (RESULT_STORAGE_DIR (cfg a))
                       \<and> dir_distinct (snd q) (DATASET_STORAGE_DIR (cfg a))) \<longrightarrow>
        spaced (real_of_int (RESULT_CLEANUP_INTERVAL_SECONDS (cfg a)))
          (last_result_cleanup_at a # serve a reqs))"
proof (intro conjI impI)
  assume h: "dir_distinct boot_fs (RESULT_STORAGE_DIR c) \<and> dir_distinct boot_fs (DATASET_STORAGE_DIR c)"
  let ?fs1 = "mkdir (mkdir boot_fs (RESULT_STORAGE_DIR c)) (DATASET_STORAGE_DIR c)"
  have R: "dir_distinct ?fs1 (RESULT_STORAGE_DIR c)"
    and D: "dir_distinct ?fs1 (DATASET_STORAGE_DIR c)"
    using h by (simp_all add: dir_distinct_mkdir)
  show "create_app c boot boot_fs
        = (Inr \<lparr>cfg = c, last_result_cleanup_at = 0\<rparr>,
           snd (cleanup_expired_datasets boot
                  (snd (cleanup_expired boot ?fs1 (RESULT_STORAGE_DIR c) (RESULT_TTL_SECONDS c)))
                  (DATASET_STORAGE_DIR c) (RESULT_TTL_SECONDS c)))"
    by (simp add: create_app_def run_cleanups_effect [OF R D])
next
  show "gate_open a now \<longleftrightarrow>
        now - last_result_cleanup_at a \<ge> real_of_int (RESULT_CLEANUP_INTERVAL_SECONDS (cfg a))"
    by (simp add: gate_open_def)
next
  assume "\<not> gate_open a now"
  then show "before_request a now fs = (None, a, fs)"
    by (rule before_request_closed)
next
  assume h: "gate_open a now \<and> dir_distinct fs (RESULT_STORAGE_DIR (cfg a))
        \<and> dir_distinct fs (DATASET_STORAGE_DIR (cfg a))"
  then show "before_request a now fs
          = (None, a\<lparr>last_result_cleanup_at := now\<rparr>,
             snd (cleanup_expired_datasets now
                    (snd (cleanup_expired now fs (RESULT_STORAGE_DIR (cfg a))
                            (RESULT_TTL_SECONDS (cfg a))))
                    (DATASET_STORAGE_DIR (cfg a)) (RESULT_TTL_SECONDS (cfg a))))"
    by (intro before_request_open) simp_all
next
  assume "\<forall>q \<in> set reqs. dir_distinct (snd q) (RESULT_STORAGE_DIR (cfg a))
                       \<and> dir_distinct (snd q) (DATASET_STORAGE_DIR (cfg a))"
  then show "spaced (real_of_int (RESULT_CLEANUP_INTERVAL_SECONDS (cfg a)))
          (last_result_cleanup_at a # serve a reqs)"
    by (rule serve_spaced)
qed

text \<open>
  An application with an interval of 300 seconds and five requests, at 5000, 5100,
  5299, 5300 and 5400. The hook sweeps at 5000 and at 5300, and at no other request.
\<close>

theorem sweep_scheduling_witness:
  "dir_distinct example_sweep_fs ''r'' \<and> dir_distinct example_sweep_fs ''d''
   \<and> fst (create_app example_config 4000 example_sweep_fs) = Inr example_app
   \<and> gate_open example_app 5000
   \<and> fst (snd (before_request example_app 5000 example_sweep_fs))
       = example_app\<lparr>last_result_cleanup_at := 5000\<rparr>
   \<and> \<not> gate_open (example_app\<lparr>last_result_cleanup_at := 5000\<rparr>) 5100
   \<and> before_request (example_app\<lparr>last_result_cleanup_at := 5000\<rparr>) 5100 example_sweep_fs
       = (None, example_app\<lparr>last_result_cleanup_at := 5000\<rparr>, example_sweep_fs)
   \<and> serve example_app example_requests = [5000, 5300]
   \<and> spaced 300 (0 # serve example_app example_requests)"
proof -
  have c: "cfg example_app = example_config" "last_result_cleanup_at example_app = 0"
    "RESULT_STORAGE_DIR example_config = ''r''" "DATASET_STORAGE_DIR example_config = ''d''"
    "RESULT_CLEANUP_INTERVAL_SECONDS example_config = 300"
    by (simp_all add: example_app_def example_config_def)
  have s: "dir_distinct example_sweep_fs ''r''" "dir_distinct example_sweep_fs ''d''"
    by (simp_all add: dir_distinct_def example_sweep_fs_def)
  have l: "dir_distinct example_lone_fs ''r''" "dir_distinct example_lone_fs ''d''"
    by (simp_all add: dir_distinct_def example_lone_fs_def)
  have e: "dir_distinct Map.empty ''r''" "dir_distinct Map.empty ''d''"
    by (simp_all add: dir_distinct_def)
  have all: "\<forall>q \<in> set example_requests. dir_distinct (snd q) ''r'' \<and> dir_distinct (snd q) ''d''"
    using s l e by (simp add: example_requests_def)
  have g1: "gate_open example_app 5000"
    by (simp add: gate_open_def c)
  have g2: "\<not> gate_open (example_app\<lparr>last_result_cleanup_at := 5000\<rparr>) t"
    if "t < 5300" for t
    using that by (simp add: gate_open_def c)
  have g3: "gate_open (example_app\<lparr>last_result_cleanup_at := 5000\<rparr>) 5300"
    by (simp add: gate_open_def c)
  have g4: "\<not> gate_open (example_app\<lparr>last_result_cleanup_at := 5300\<rparr>) 5400"
    by (simp add: gate_open_def c)
  let ?a1 = "example_app\<lparr>last_result_cleanup_at := 5000\<rparr>"
  let ?a2 = "example_app\<lparr>last_result_cleanup_at := 5300\<rparr>"
  have u: "?a1\<lparr>last_result_cleanup_at := 5300\<rparr> = ?a2"
    by simp
  have b1: "before_request example_app 5000 example_sweep_fs
       = (None, ?a1,
          snd (cleanup_expired_datasets 5000
                 (snd (cleanup_expired 5000 example_sweep_fs ''r'' 3600)) ''d'' 3600))"
    using before_request_open [OF g1, of example_sweep_fs] s
    by (simp add: c example_config_def)
  have b2: "before_request ?a1 5100 fs = (None, ?a1, fs)" for fs
    using g2 [of 5100] by (simp add: before_request_closed)
  have b3: "before_request ?a1 5299 fs = (None, ?a1, fs)" for fs
    using g2 [of 5299] by (simp add: before_request_closed)
  have b4: "before_request ?a1 5300 example_lone_fs
       = (None, ?a2,
          snd (cleanup_expired_datasets 5300
                 (snd (cleanup_expired 5300 example_lone_fs ''r'' 3600)) ''d'' 3600))"
    using before_request_open [OF g3, of example_lone_fs] l
    by (simp add: c example_config_def)
  have b5: "before_request ?a2 5400 fs = (None, ?a2, fs)" for fs
    using g4 by (simp add: before_request_closed)
  have sv: "serve example_app example_requests = [5000, 5300]"
    using g1 g2 [of 5100] g2 [of 5299] g3 g4
    by (simp add: example_requests_def b1 b2 b3 b4 b5)
  show ?thesis
    using sweep_scheduling [where c = example_config and boot = 4000 and boot_fs = example_sweep_fs
        and a = "example_app\<lparr>last_result_cleanup_at := 5000\<rparr>" and now = 5100
        and fs = example_sweep_fs]
      sweep_scheduling [where a = example_app and reqs = example_requests]
      s all g1 b1 g2 [of 5100] sv
    by (simp add: c)
qed

end
